theory Spec2Isabelle
  imports Main "HOL-Library.Log_Nat"
begin

section \<open>Data model (app.go, lines 22--65)\<close>

text \<open>
  Go strings are byte sequences: a \<open>string\<close> here is the list of its bytes. A slice is a
  list with one more value, \<open>nil\<close>: \<open>VPNStats\<close> is \<open>None\<close> for the nil slice and \<open>Some xs\<close>
  otherwise, because the JSON encoder writes \<open>null\<close> for the one and \<open>[]\<close> for the other.
\<close>

record Location =
  Country :: string
  City :: string

record VPNStat =
  LocationName :: string
  TimeToConnect :: string
  VPNDownloadSpeed :: string
  VPNUploadSpeed :: string
  VPNLatency :: string
  Server :: string
  Timestamp :: string
  Mode :: string

record Results =
  MachineName :: string
  OS :: string
  WithoutVPN :: string
  VPNStats :: "VPNStat list option"

text \<open>
  \<open>SpeedTestResult\<close>, with its nested structs flattened. A \<open>float64\<close> is modelled by the
  rational number it denotes (the sign of a zero is not represented); bandwidths are
  \<open>int64\<close> values.
\<close>

record SpeedTestResult =
  PingLatency :: rat
  DownloadBandwidth :: int
  UploadBandwidth :: int
  ServerHost :: string
  ServerName :: string
  ServerCountry :: string
  ServerLocation :: string

text \<open>Errors of the program and of its collaborators, as values.\<close>

datatype error =
    ExecError         \<comment> \<open>an external command could not be run or exited nonzero\<close>
  | ReadError         \<comment> \<open>\<open>os.ReadFile\<close> failed on a file that exists\<close>
  | WriteError        \<comment> \<open>\<open>os.WriteFile\<close> failed\<close>
  | JsonSyntaxError   \<comment> \<open>\<open>json.Unmarshal\<close>: the input is not a JSON text\<close>
  | JsonTypeError     \<comment> \<open>\<open>json.Unmarshal\<close>: a JSON value does not fit its Go field\<close>
  | HostnameError     \<comment> \<open>\<open>os.Hostname\<close> failed\<close>

definition zero_stat :: VPNStat where
  "zero_stat = \<lparr>LocationName = [], TimeToConnect = [], VPNDownloadSpeed = [],
     VPNUploadSpeed = [], VPNLatency = [], Server = [], Timestamp = [], Mode = []\<rparr>"

definition zero_results :: Results where
  "zero_results = \<lparr>MachineName = [], OS = [], WithoutVPN = [], VPNStats = None\<rparr>"

definition elems :: "'a list option \<Rightarrow> 'a list" where
  "elems s = (case s of None \<Rightarrow> [] | Some xs \<Rightarrow> xs)"

section \<open>Bytes and UTF-8\<close>

definition byte_of :: "char \<Rightarrow> int" where
  "byte_of c = of_char c"

definition cont :: "char \<Rightarrow> bool" where
  "cont c = (128 \<le> byte_of c \<and> byte_of c < 192)"

text \<open>The range of the second byte of a sequence whose first byte is \<open>x\<close>.\<close>

definition second_ok :: "int \<Rightarrow> char \<Rightarrow> bool" where
  "second_ok x b =
     (let y = byte_of b in
      if x = 0xE0 then 0xA0 \<le> y \<and> y \<le> 0xBF
      else if x = 0xED then 0x80 \<le> y \<and> y \<le> 0x9F
      else if x = 0xF0 then 0x90 \<le> y \<and> y \<le> 0xBF
      else if x = 0xF4 then 0x80 \<le> y \<and> y \<le> 0x8F
      else 0x80 \<le> y \<and> y \<le> 0xBF)"

text \<open>
  \<open>utf8.DecodeRune\<close>, as far as its callers below look at it: the width of the well-formed
  encoding at the head of the input, and 0 where Go reports \<open>RuneError\<close> with width 1
  (a byte that starts no well-formed encoding) or the input is empty.
\<close>

fun utf8_len :: "string \<Rightarrow> nat" where
  "utf8_len [] = 0"
| "utf8_len (a # r) =
     (let x = byte_of a in
      if x < 0x80 then 1
      else if 0xC2 \<le> x \<and> x \<le> 0xDF then
        (case r of b # _ \<Rightarrow> if cont b then 2 else 0 | _ \<Rightarrow> 0)
      else if 0xE0 \<le> x \<and> x \<le> 0xEF then
        (case r of b # c # _ \<Rightarrow> if second_ok x b \<and> cont c then 3 else 0 | _ \<Rightarrow> 0)
      else if 0xF0 \<le> x \<and> x \<le> 0xF4 then
        (case r of b # c # d # _ \<Rightarrow> if second_ok x b \<and> cont c \<and> cont d then 4 else 0 | _ \<Rightarrow> 0)
      else 0)"

text \<open>The encoding of U+FFFD, the replacement rune, and of the two separators Go escapes.\<close>

definition replacement :: string where
  "replacement = [CHR 0xEF, CHR 0xBF, CHR 0xBD]"

definition line_sep :: string where
  "line_sep = [CHR 0xE2, CHR 0x80, CHR 0xA8]"

definition para_sep :: string where
  "para_sep = [CHR 0xE2, CHR 0x80, CHR 0xA9]"

definition backslash :: char where
  "backslash = CHR 0x5C"

definition dquote :: char where
  "dquote = CHR 0x22"

text \<open>
  A string is well-formed UTF-8 when every byte belongs to a well-formed encoding.
  \<open>toValidUTF8\<close> replaces each byte that does not by U+FFFD, which is what a string
  becomes on its way through the JSON encoder and back.
\<close>

function valid_utf8 :: "string \<Rightarrow> bool" where
  "valid_utf8 [] = True"
| "valid_utf8 (c # cs) =
     (utf8_len (c # cs) \<noteq> 0 \<and> valid_utf8 (drop (utf8_len (c # cs) - 1) cs))"
  by pat_completeness auto
termination
  by (relation "measure length") auto

function toValidUTF8 :: "string \<Rightarrow> string" where
  "toValidUTF8 [] = []"
| "toValidUTF8 (c # cs) =
     (if utf8_len (c # cs) = 0 then replacement @ toValidUTF8 cs
      else take (utf8_len (c # cs)) (c # cs) @ toValidUTF8 (drop (utf8_len (c # cs) - 1) cs))"
  by pat_completeness auto
termination
  by (relation "measure length") auto

section \<open>The JSON encoder (\<open>json.MarshalIndent\<close> at type \<open>Results\<close>)\<close>

text \<open>
  \<open>saveToFile\<close> calls \<open>json.MarshalIndent(data, "", "  ")\<close>. The library is not part of
  the repository; what follows is its behaviour on a \<open>Results\<close> value: every field is
  written, in declaration order, strings are quoted by \<open>appendString\<close> with HTML escaping
  on, a nil slice is \<open>null\<close>, and the compact output is re-indented by two spaces per
  level with empty arrays and objects left closed.
\<close>

definition hexdigit :: "int \<Rightarrow> char" where
  "hexdigit n = (if n < 10 then char_of (48 + n) else char_of (87 + n))"

definition htmlSafe :: "char \<Rightarrow> bool" where
  "htmlSafe c =
     (let x = byte_of c in
      0x20 \<le> x \<and> x < 0x80 \<and> x \<noteq> 0x22 \<and> x \<noteq> 0x26 \<and> x \<noteq> 0x3C \<and> x \<noteq> 0x3E \<and> x \<noteq> 0x5C)"

definition escape_byte :: "char \<Rightarrow> string" where
  "escape_byte c =
     (let x = byte_of c in
      if x = 0x5C \<or> x = 0x22 then [backslash, c]
      else if x = 0x08 then [backslash, CHR ''b'']
      else if x = 0x0C then [backslash, CHR ''f'']
      else if x = 0x0A then [backslash, CHR ''n'']
      else if x = 0x0D then [backslash, CHR ''r'']
      else if x = 0x09 then [backslash, CHR ''t'']
      else [backslash, CHR ''u'', CHR ''0'', CHR ''0'', hexdigit (x div 16), hexdigit (x mod 16)])"

text \<open>The body of a quoted string: \<open>appendString\<close> without the two quotes.\<close>

function appendString :: "string \<Rightarrow> string" where
  "appendString [] = []"
| "appendString (c # cs) =
     (if byte_of c < 0x80 then
        (if htmlSafe c then [c] else escape_byte c) @ appendString cs
      else if utf8_len (c # cs) = 0 then
        (backslash # ''ufffd'') @ appendString cs
      else if take 3 (c # cs) = line_sep then
        (backslash # ''u2028'') @ appendString (drop 2 cs)
      else if take 3 (c # cs) = para_sep then
        (backslash # ''u2029'') @ appendString (drop 2 cs)
      else take (utf8_len (c # cs)) (c # cs) @ appendString (drop (utf8_len (c # cs) - 1) cs))"
  by pat_completeness auto
termination
  by (relation "measure length") auto

definition quote :: "string \<Rightarrow> string" where
  "quote s = dquote # appendString s @ [dquote]"

datatype json =
    JNull
  | JBool bool
  | JNumber
  | JString string
  | JArray "json list"
  | JObject "(string \<times> json) list"

definition newline :: "nat \<Rightarrow> string" where
  "newline depth = CHR 0x0A # replicate (2 * depth) CHR '' ''"

fun join :: "string \<Rightarrow> string list \<Rightarrow> string" where
  "join sep [] = []"
| "join sep [x] = x"
| "join sep (x # y # ys) = x @ sep @ join sep (y # ys)"

text \<open>
  The indented text of a JSON value at a nesting depth. Numbers carry no value in this
  model (no field of \<open>Results\<close> is a number); the encoder never meets one.
\<close>

fun indent_json :: "nat \<Rightarrow> json \<Rightarrow> string" where
  "indent_json depth JNull = ''null''"
| "indent_json depth (JBool b) = (if b then ''true'' else ''false'')"
| "indent_json depth JNumber = ''0''"
| "indent_json depth (JString s) = quote s"
| "indent_json depth (JArray vs) =
     (if vs = [] then ''[]''
      else ''['' @ newline (Suc depth)
           @ join ('','' @ newline (Suc depth)) (map (indent_json (Suc depth)) vs)
           @ newline depth @ '']'')"
| "indent_json depth (JObject ms) =
     (if ms = [] then ''{}''
      else ''{'' @ newline (Suc depth)
           @ join ('','' @ newline (Suc depth))
               (map (\<lambda>(k, v). quote k @ '': '' @ indent_json (Suc depth) v) ms)
           @ newline depth @ ''}'')"

text \<open>The struct tags of app.go, lines 31--47.\<close>

definition stat_json :: "VPNStat \<Rightarrow> json" where
  "stat_json s = JObject
     [(''LocationName'', JString (LocationName s)),
      (''TimeToConnect'', JString (TimeToConnect s)),
      (''VPNDownloadSpeed'', JString (VPNDownloadSpeed s)),
      (''VPNUploadSpeed'', JString (VPNUploadSpeed s)),
      (''VPNLatency'', JString (VPNLatency s)),
      (''Server'', JString (Server s)),
      (''Date/Time'', JString (Timestamp s)),
      (''Mode'', JString (Mode s))]"

definition results_json :: "Results \<Rightarrow> json" where
  "results_json d = JObject
     [(''MachineName'', JString (MachineName d)),
      (''OS'', JString (OS d)),
      (''WithoutVPN'', JString (WithoutVPN d)),
      (''VPNStats'', (case VPNStats d of None \<Rightarrow> JNull | Some xs \<Rightarrow> JArray (map stat_json xs)))]"

definition MarshalIndent :: "Results \<Rightarrow> string" where
  "MarshalIndent d = indent_json 0 (results_json d)"

section \<open>The JSON decoder (\<open>json.Unmarshal\<close> at type \<open>Results\<close>)\<close>

text \<open>
  \<open>loadFromFile\<close> calls \<open>json.Unmarshal(file, &data)\<close> on a zero \<open>Results\<close>. Go first checks
  that the whole input is one JSON text, then decodes it onto the value. The model does
  the same in three steps: tokens, a value, the fields.
\<close>

subsection \<open>Tokens\<close>

datatype token =
    LBrace | RBrace | LBrack | RBrack | Colon | Comma
  | TString string | TNumber | TTrue | TFalse | TNull

definition is_ws :: "char \<Rightarrow> bool" where
  "is_ws c = (c = CHR '' '' \<or> c = CHR 0x09 \<or> c = CHR 0x0A \<or> c = CHR 0x0D)"

definition is_digit :: "char \<Rightarrow> bool" where
  "is_digit c = (48 \<le> byte_of c \<and> byte_of c \<le> 57)"

definition hexval :: "char \<Rightarrow> int option" where
  "hexval c =
     (let x = byte_of c in
      if 48 \<le> x \<and> x \<le> 57 then Some (x - 48)
      else if 97 \<le> x \<and> x \<le> 102 then Some (x - 87)
      else if 65 \<le> x \<and> x \<le> 70 then Some (x - 55)
      else None)"

text \<open>The four hex digits of a \<open>\u\<close> escape; \<open>getu4_escaped\<close> also reads the \<open>\u\<close> before them.\<close>

fun getu4 :: "string \<Rightarrow> int option" where
  "getu4 (a # b # c # d # rest) =
     (case (hexval a, hexval b, hexval c, hexval d) of
        (Some p, Some q, Some r, Some s) \<Rightarrow> Some (((p * 16 + q) * 16 + r) * 16 + s)
      | _ \<Rightarrow> None)"
| "getu4 _ = None"

fun getu4_escaped :: "string \<Rightarrow> int option" where
  "getu4_escaped (b # u # rest) = (if b = backslash \<and> u = CHR ''u'' then getu4 rest else None)"
| "getu4_escaped _ = None"

definition is_surrogate :: "int \<Rightarrow> bool" where
  "is_surrogate r = (0xD800 \<le> r \<and> r < 0xE000)"

definition utf16_pair :: "int \<Rightarrow> int \<Rightarrow> int option" where
  "utf16_pair r1 r2 =
     (if 0xD800 \<le> r1 \<and> r1 < 0xDC00 \<and> 0xDC00 \<le> r2 \<and> r2 < 0xE000
      then Some ((r1 - 0xD800) * 1024 + (r2 - 0xDC00) + 0x10000) else None)"

text \<open>\<open>utf8.EncodeRune\<close>.\<close>

definition encodeRune :: "int \<Rightarrow> string" where
  "encodeRune r =
     (if r < 0x80 then [char_of r]
      else if r < 0x800 then [char_of (0xC0 + r div 64), char_of (0x80 + r mod 64)]
      else if is_surrogate r \<or> 0x10FFFF < r then replacement
      else if r < 0x10000 then
        [char_of (0xE0 + r div 4096), char_of (0x80 + r div 64 mod 64), char_of (0x80 + r mod 64)]
      else
        [char_of (0xF0 + r div 262144), char_of (0x80 + r div 4096 mod 64),
         char_of (0x80 + r div 64 mod 64), char_of (0x80 + r mod 64)])"

definition simple_escape :: "char \<Rightarrow> char option" where
  "simple_escape e =
     (if e = dquote \<or> e = backslash \<or> e = CHR ''/'' then Some e
      else if e = CHR ''b'' then Some (CHR 0x08)
      else if e = CHR ''f'' then Some (CHR 0x0C)
      else if e = CHR ''n'' then Some (CHR 0x0A)
      else if e = CHR ''r'' then Some (CHR 0x0D)
      else if e = CHR ''t'' then Some (CHR 0x09)
      else None)"

text \<open>
  One escape sequence, read after its backslash: the bytes it stands for and the number
  of input bytes it takes. A surrogate that is not the first half of a pair becomes
  U+FFFD.
\<close>

definition escape :: "string \<Rightarrow> (string \<times> nat) option" where
  "escape cs =
     (case cs of
        [] \<Rightarrow> None
      | e # es \<Rightarrow>
          if e = CHR ''u'' then
            (case getu4 es of
               None \<Rightarrow> None
             | Some rr \<Rightarrow>
                 if is_surrogate rr then
                   (case getu4_escaped (drop 4 es) of
                      None \<Rightarrow> Some (replacement, 5)
                    | Some rr1 \<Rightarrow>
                        (case utf16_pair rr rr1 of
                           None \<Rightarrow> Some (replacement, 5)
                         | Some r \<Rightarrow> Some (encodeRune r, 11)))
                 else Some (encodeRune rr, 5))
          else
            (case simple_escape e of
               None \<Rightarrow> None
             | Some x \<Rightarrow> Some ([x], 1)))"

definition prepend :: "string \<Rightarrow> (string \<times> string) option \<Rightarrow> (string \<times> string) option" where
  "prepend p r = (case r of None \<Rightarrow> None | Some (s, rest) \<Rightarrow> Some (p @ s, rest))"

text \<open>
  A string literal, read after its opening quote: the string it denotes and the input
  after its closing quote. The scanner rejects a raw control character and a malformed
  escape; \<open>unquote\<close> replaces a byte that is not UTF-8 by U+FFFD.
\<close>

function unquote :: "string \<Rightarrow> (string \<times> string) option" where
  "unquote [] = None"
| "unquote (c # cs) =
     (if c = dquote then Some ([], cs)
      else if c = backslash then
        (case escape cs of
           None \<Rightarrow> None
         | Some (out, n) \<Rightarrow> prepend out (unquote (drop n cs)))
      else if byte_of c < 0x20 then None
      else if byte_of c < 0x80 then prepend [c] (unquote cs)
      else if utf8_len (c # cs) = 0 then prepend replacement (unquote cs)
      else prepend (take (utf8_len (c # cs)) (c # cs)) (unquote (drop (utf8_len (c # cs) - 1) cs)))"
  by pat_completeness auto
termination
  by (relation "measure length") auto

text \<open>A number literal: the input after it, when it follows the JSON grammar.\<close>

definition exponent :: "string \<Rightarrow> string option" where
  "exponent s =
     (case s of
        [] \<Rightarrow> Some []
      | c # cs \<Rightarrow>
          if c = CHR ''e'' \<or> c = CHR ''E'' then
            (case (case cs of [] \<Rightarrow> [] | g # r \<Rightarrow> if g = CHR ''+'' \<or> g = CHR ''-'' then r else cs) of
               [] \<Rightarrow> None
             | d # ds \<Rightarrow> if is_digit d then Some (dropWhile is_digit ds) else None)
          else Some s)"

definition fraction :: "string \<Rightarrow> string option" where
  "fraction s =
     (case s of
        [] \<Rightarrow> Some []
      | c # cs \<Rightarrow>
          if c = CHR ''.'' then
            (case cs of
               [] \<Rightarrow> None
             | d # ds \<Rightarrow> if is_digit d then exponent (dropWhile is_digit ds) else None)
          else exponent s)"

definition lex_number :: "string \<Rightarrow> string option" where
  "lex_number s =
     (case (case s of [] \<Rightarrow> [] | c # cs \<Rightarrow> if c = CHR ''-'' then cs else s) of
        [] \<Rightarrow> None
      | d # ds \<Rightarrow>
          if d = CHR ''0'' then fraction ds
          else if is_digit d then fraction (dropWhile is_digit ds)
          else None)"

lemma prepend_Some:
  "prepend p r = Some (s, rest) \<longleftrightarrow> (\<exists>s'. r = Some (s', rest) \<and> s = p @ s')"
  by (auto simp: prepend_def split: option.splits)

lemma unquote_length: "unquote cs = Some (s, rest) \<Longrightarrow> length rest < length cs"
proof (induction cs arbitrary: s rest rule: unquote.induct)
  case 1
  then show ?case by simp
next
  case (2 c cs)
  consider (q) "c = dquote"
    | (b) "c \<noteq> dquote" "c = backslash"
    | (ctl) "c \<noteq> dquote" "c \<noteq> backslash" "byte_of c < 0x20"
    | (asc) "c \<noteq> dquote" "c \<noteq> backslash" "\<not> byte_of c < 0x20" "byte_of c < 0x80"
    | (bad) "c \<noteq> dquote" "c \<noteq> backslash" "\<not> byte_of c < 0x20" "\<not> byte_of c < 0x80"
        "utf8_len (c # cs) = 0"
    | (multi) "c \<noteq> dquote" "c \<noteq> backslash" "\<not> byte_of c < 0x20" "\<not> byte_of c < 0x80"
        "utf8_len (c # cs) \<noteq> 0"
    by blast
  then show ?case
  proof cases
    case q
    with "2.prems" show ?thesis by simp
  next
    case b
    with "2.prems" obtain out n where e: "escape cs = Some (out, n)"
      by (auto split: option.splits)
    with b "2.prems" obtain s' where "unquote (drop n cs) = Some (s', rest)"
      by (auto simp: prepend_Some)
    with "2.IH"(1) [OF b e refl] have "length rest < length (drop n cs)" by blast
    then show ?thesis by simp
  next
    case ctl
    with "2.prems" show ?thesis by simp
  next
    case asc
    with "2.prems" obtain s' where "unquote cs = Some (s', rest)"
      by (auto simp: prepend_Some)
    with "2.IH"(2) asc have "length rest < length cs" by blast
    then show ?thesis by simp
  next
    case bad
    with "2.prems" obtain s' where "unquote cs = Some (s', rest)"
      by (auto simp: prepend_Some)
    with "2.IH"(3) bad have "length rest < length cs" by blast
    then show ?thesis by simp
  next
    case multi
    with "2.prems" obtain s' where "unquote (drop (utf8_len (c # cs) - 1) cs) = Some (s', rest)"
      by (auto simp: prepend_Some)
    with "2.IH"(4) multi have "length rest < length (drop (utf8_len (c # cs) - 1) cs)" by blast
    then show ?thesis by simp
  qed
qed

lemma dropWhile_bound: "length r \<le> length (dropWhile P xs) \<Longrightarrow> length r \<le> length xs"
  using length_dropWhile_le [of P xs] by linarith

lemma exponent_length: "exponent s = Some rest \<Longrightarrow> length rest \<le> length s"
  by (auto simp: exponent_def le_SucI length_dropWhile_le split: list.splits if_splits)

lemma fraction_length: "fraction s = Some rest \<Longrightarrow> length rest \<le> length s"
  by (auto simp: fraction_def split: list.splits if_splits dest!: exponent_length dropWhile_bound)

lemma lex_number_length: "lex_number (c # cs) = Some rest \<Longrightarrow> length rest \<le> length cs"
  by (auto simp: lex_number_def split: list.splits if_splits dest!: fraction_length dropWhile_bound)

definition cons_token :: "token \<Rightarrow> token list option \<Rightarrow> token list option" where
  "cons_token t r = (case r of None \<Rightarrow> None | Some ts \<Rightarrow> Some (t # ts))"

function tokenize :: "string \<Rightarrow> token list option" where
  "tokenize [] = Some []"
| "tokenize (c # cs) =
     (if is_ws c then tokenize cs
      else if c = CHR ''{'' then cons_token LBrace (tokenize cs)
      else if c = CHR ''}'' then cons_token RBrace (tokenize cs)
      else if c = CHR ''['' then cons_token LBrack (tokenize cs)
      else if c = CHR '']'' then cons_token RBrack (tokenize cs)
      else if c = CHR '':'' then cons_token Colon (tokenize cs)
      else if c = CHR '','' then cons_token Comma (tokenize cs)
      else if c = dquote then
        (case unquote cs of
           None \<Rightarrow> None
         | Some (s, rest) \<Rightarrow> cons_token (TString s) (tokenize rest))
      else if c = CHR ''-'' \<or> is_digit c then
        (case lex_number (c # cs) of
           None \<Rightarrow> None
         | Some rest \<Rightarrow> cons_token TNumber (tokenize rest))
      else if take 4 (c # cs) = ''true'' then cons_token TTrue (tokenize (drop 3 cs))
      else if take 5 (c # cs) = ''false'' then cons_token TFalse (tokenize (drop 4 cs))
      else if take 4 (c # cs) = ''null'' then cons_token TNull (tokenize (drop 3 cs))
      else None)"
  by pat_completeness auto
termination
proof (relation "measure length", goal_cases)
  case (9 c cs x2 x y)
  then show ?case using unquote_length [of cs x y] by simp
next
  case (10 c cs x2)
  then show ?case using lex_number_length [of c cs x2] by simp
qed auto

subsection \<open>Values\<close>

text \<open>
  The grammar, as a stack machine over the tokens: a frame is an array or an object
  under construction (an object with the key whose value is being read). Go's scanner
  allows 10000 open arrays and objects.
\<close>

datatype frame = FArray "json list" | FObject "(string \<times> json) list" string

datatype pstate =
    ExpValue | ExpValueOrClose | ExpKeyOrClose | ExpKey | ExpColon | ExpCommaOrClose
  | Done json

fun complete :: "json \<Rightarrow> frame list \<Rightarrow> pstate \<times> frame list" where
  "complete v [] = (Done v, [])"
| "complete v (FArray es # stk) = (ExpCommaOrClose, FArray (es @ [v]) # stk)"
| "complete v (FObject ms k # stk) = (ExpCommaOrClose, FObject (ms @ [(k, v)]) k # stk)"

definition maxNestingDepth :: nat where
  "maxNestingDepth = 10000"

fun begin_value :: "token \<Rightarrow> frame list \<Rightarrow> (pstate \<times> frame list) option" where
  "begin_value LBrace stk =
     (if length stk < maxNestingDepth then Some (ExpKeyOrClose, FObject [] [] # stk) else None)"
| "begin_value LBrack stk =
     (if length stk < maxNestingDepth then Some (ExpValueOrClose, FArray [] # stk) else None)"
| "begin_value (TString s) stk = Some (complete (JString s) stk)"
| "begin_value TNumber stk = Some (complete JNumber stk)"
| "begin_value TTrue stk = Some (complete (JBool True) stk)"
| "begin_value TFalse stk = Some (complete (JBool False) stk)"
| "begin_value TNull stk = Some (complete JNull stk)"
| "begin_value _ stk = None"

fun read_key :: "token \<Rightarrow> frame list \<Rightarrow> (pstate \<times> frame list) option" where
  "read_key (TString k) (FObject ms k0 # stk) = Some (ExpColon, FObject ms k # stk)"
| "read_key _ _ = None"

fun step :: "pstate \<Rightarrow> frame list \<Rightarrow> token \<Rightarrow> (pstate \<times> frame list) option" where
  "step ExpValue stk t = begin_value t stk"
| "step ExpValueOrClose stk t =
     (case (t, stk) of
        (RBrack, FArray es # stk') \<Rightarrow> Some (complete (JArray es) stk')
      | _ \<Rightarrow> begin_value t stk)"
| "step ExpKeyOrClose stk t =
     (case (t, stk) of
        (RBrace, FObject ms k # stk') \<Rightarrow> Some (complete (JObject ms) stk')
      | _ \<Rightarrow> read_key t stk)"
| "step ExpKey stk t = read_key t stk"
| "step ExpColon stk t = (if t = Colon then Some (ExpValue, stk) else None)"
| "step ExpCommaOrClose stk t =
     (case stk of
        [] \<Rightarrow> None
      | FArray es # stk' \<Rightarrow>
          if t = Comma then Some (ExpValue, stk)
          else if t = RBrack then Some (complete (JArray es) stk')
          else None
      | FObject ms k # stk' \<Rightarrow>
          if t = Comma then Some (ExpKey, stk)
          else if t = RBrace then Some (complete (JObject ms) stk')
          else None)"
| "step (Done v) stk t = None"

fun run :: "pstate \<Rightarrow> frame list \<Rightarrow> token list \<Rightarrow> json option" where
  "run st stk [] = (case st of Done v \<Rightarrow> Some v | _ \<Rightarrow> None)"
| "run st stk (t # ts) =
     (case step st stk t of
        None \<Rightarrow> None
      | Some (st', stk') \<Rightarrow> run st' stk' ts)"

definition parse_json :: "string \<Rightarrow> json option" where
  "parse_json s = (case tokenize s of None \<Rightarrow> None | Some ts \<Rightarrow> run ExpValue [] ts)"

subsection \<open>Fields\<close>

text \<open>
  A key names a field when it is the field's JSON name, or equals it under Go's case
  folding: ASCII letters fold to upper case, and the only other runes that fold to an
  ASCII letter are U+017F (to S) and U+212A (to K).
\<close>

definition upper_byte :: "char \<Rightarrow> char" where
  "upper_byte c = (if 97 \<le> byte_of c \<and> byte_of c \<le> 122 then char_of (byte_of c - 32) else c)"

definition long_s :: string where
  "long_s = [CHR 0xC5, CHR 0xBF]"

definition kelvin :: string where
  "kelvin = [CHR 0xE2, CHR 0x84, CHR 0xAA]"

fun foldName :: "string \<Rightarrow> string" where
  "foldName (a # b # c # rest) =
     (if [a, b, c] = kelvin then CHR ''K'' # foldName rest
      else if [a, b] = long_s then CHR ''S'' # foldName (c # rest)
      else upper_byte a # foldName (b # c # rest))"
| "foldName [a, b] = (if [a, b] = long_s then ''S'' else [upper_byte a, upper_byte b])"
| "foldName [a] = [upper_byte a]"
| "foldName [] = []"

definition match_field :: "string list \<Rightarrow> string \<Rightarrow> string option" where
  "match_field names key =
     (case find (\<lambda>n. n = key) names of
        Some n \<Rightarrow> Some n
      | None \<Rightarrow> find (\<lambda>n. foldName n = foldName key) names)"

text \<open>
  Decoding never starts from scratch: a JSON value is decoded onto the Go value that is
  already there. \<open>null\<close> leaves a string as it is, and a value of another kind is an
  \<open>UnmarshalTypeError\<close>. Go goes on decoding after such an error and returns it at the
  end; the document read so far is of no use to \<open>loadFromFile\<close>'s callers, so the model
  stops at the error.
\<close>

fun decode_string :: "json \<Rightarrow> string \<Rightarrow> string option" where
  "decode_string (JString s) old = Some s"
| "decode_string JNull old = Some old"
| "decode_string _ old = None"

definition stat_fields :: "string list" where
  "stat_fields =
     [''LocationName'', ''TimeToConnect'', ''VPNDownloadSpeed'', ''VPNUploadSpeed'',
      ''VPNLatency'', ''Server'', ''Date/Time'', ''Mode'']"

definition set_stat_field :: "string \<Rightarrow> json \<Rightarrow> VPNStat \<Rightarrow> VPNStat option" where
  "set_stat_field name v s =
     (if name = ''LocationName'' then
        map_option (\<lambda>x. s\<lparr>LocationName := x\<rparr>) (decode_string v (LocationName s))
      else if name = ''TimeToConnect'' then
        map_option (\<lambda>x. s\<lparr>TimeToConnect := x\<rparr>) (decode_string v (TimeToConnect s))
      else if name = ''VPNDownloadSpeed'' then
        map_option (\<lambda>x. s\<lparr>VPNDownloadSpeed := x\<rparr>) (decode_string v (VPNDownloadSpeed s))
      else if name = ''VPNUploadSpeed'' then
        map_option (\<lambda>x. s\<lparr>VPNUploadSpeed := x\<rparr>) (decode_string v (VPNUploadSpeed s))
      else if name = ''VPNLatency'' then
        map_option (\<lambda>x. s\<lparr>VPNLatency := x\<rparr>) (decode_string v (VPNLatency s))
      else if name = ''Server'' then
        map_option (\<lambda>x. s\<lparr>Server := x\<rparr>) (decode_string v (Server s))
      else if name = ''Date/Time'' then
        map_option (\<lambda>x. s\<lparr>Timestamp := x\<rparr>) (decode_string v (Timestamp s))
      else if name = ''Mode'' then
        map_option (\<lambda>x. s\<lparr>Mode := x\<rparr>) (decode_string v (Mode s))
      else Some s)"

fun decode_stat_members :: "(string \<times> json) list \<Rightarrow> VPNStat \<Rightarrow> VPNStat option" where
  "decode_stat_members [] s = Some s"
| "decode_stat_members ((k, v) # ms) s =
     (case match_field stat_fields k of
        None \<Rightarrow> decode_stat_members ms s
      | Some name \<Rightarrow>
          (case set_stat_field name v s of
             None \<Rightarrow> None
           | Some s' \<Rightarrow> decode_stat_members ms s'))"

fun decode_stat :: "json \<Rightarrow> VPNStat \<Rightarrow> VPNStat option" where
  "decode_stat (JObject ms) s = decode_stat_members ms s"
| "decode_stat JNull s = Some s"
| "decode_stat _ s = None"

text \<open>
  An array is decoded element by element onto the slice's backing array: onto the
  element already at that index, if the array ever held one, and onto a zero element
  otherwise. \<open>null\<close> makes the slice nil, an empty array makes it a new empty slice.
\<close>

fun decode_elems :: "json list \<Rightarrow> VPNStat list \<Rightarrow> VPNStat list option" where
  "decode_elems [] backing = Some []"
| "decode_elems (v # vs) backing =
     (case decode_stat v (case backing of [] \<Rightarrow> zero_stat | b # bs \<Rightarrow> b) of
        None \<Rightarrow> None
      | Some e \<Rightarrow>
          (case decode_elems vs (tl backing) of
             None \<Rightarrow> None
           | Some es \<Rightarrow> Some (e # es)))"

fun decode_slice ::
  "json \<Rightarrow> VPNStat list \<Rightarrow> (VPNStat list option \<times> VPNStat list) option" where
  "decode_slice JNull backing = Some (None, [])"
| "decode_slice (JArray vs) backing =
     (if vs = [] then Some (Some [], [])
      else (case decode_elems vs backing of
              None \<Rightarrow> None
            | Some es \<Rightarrow> Some (Some es, es @ drop (length es) backing)))"
| "decode_slice _ backing = None"

definition results_fields :: "string list" where
  "results_fields = [''MachineName'', ''OS'', ''WithoutVPN'', ''VPNStats'']"

definition set_results_field ::
  "string \<Rightarrow> json \<Rightarrow> Results \<times> VPNStat list \<Rightarrow> (Results \<times> VPNStat list) option" where
  "set_results_field name v db =
     (case db of (d, backing) \<Rightarrow>
        if name = ''MachineName'' then
          map_option (\<lambda>x. (d\<lparr>MachineName := x\<rparr>, backing)) (decode_string v (MachineName d))
        else if name = ''OS'' then
          map_option (\<lambda>x. (d\<lparr>OS := x\<rparr>, backing)) (decode_string v (OS d))
        else if name = ''WithoutVPN'' then
          map_option (\<lambda>x. (d\<lparr>WithoutVPN := x\<rparr>, backing)) (decode_string v (WithoutVPN d))
        else if name = ''VPNStats'' then
          map_option (\<lambda>(xs, backing'). (d\<lparr>VPNStats := xs\<rparr>, backing')) (decode_slice v backing)
        else Some db)"

fun decode_results_members ::
  "(string \<times> json) list \<Rightarrow> Results \<times> VPNStat list \<Rightarrow> (Results \<times> VPNStat list) option" where
  "decode_results_members [] db = Some db"
| "decode_results_members ((k, v) # ms) db =
     (case match_field results_fields k of
        None \<Rightarrow> decode_results_members ms db
      | Some name \<Rightarrow>
          (case set_results_field name v db of
             None \<Rightarrow> None
           | Some db' \<Rightarrow> decode_results_members ms db'))"

fun decode_results :: "json \<Rightarrow> Results option" where
  "decode_results (JObject ms) = map_option fst (decode_results_members ms (zero_results, []))"
| "decode_results JNull = Some zero_results"
| "decode_results _ = None"

definition Unmarshal :: "string \<Rightarrow> error + Results" where
  "Unmarshal data =
     (case parse_json data of
        None \<Rightarrow> Inl JsonSyntaxError
      | Some v \<Rightarrow>
          (case decode_results v of
             None \<Rightarrow> Inl JsonTypeError
           | Some d \<Rightarrow> Inr d))"

section \<open>Numbers and their texts\<close>

definition digit_char :: "int \<Rightarrow> char" where
  "digit_char d = char_of (48 + d)"

function digits_of :: "int \<Rightarrow> string" where
  "digits_of n = (if n < 10 then [digit_char n] else digits_of (n div 10) @ [digit_char (n mod 10)])"
  by pat_completeness auto
termination
  by (relation "measure nat") auto

declare digits_of.simps [simp del]

text \<open>\<open>fmt.Sprintf("%d", i)\<close>, and Go's integer division, which truncates towards zero.\<close>

definition Sprintf_d :: "int \<Rightarrow> string" where
  "Sprintf_d i = (if i < 0 then CHR ''-'' # digits_of (- i) else digits_of i)"

definition quo :: "int \<Rightarrow> int \<Rightarrow> int" where
  "quo a b = sgn a * sgn b * (\<bar>a\<bar> div \<bar>b\<bar>)"

definition rem :: "int \<Rightarrow> int \<Rightarrow> int" where
  "rem a b = a - quo a b * b"

text \<open>
  \<open>float64\<close> arithmetic on the rationals: the exact result, rounded to the nearest number
  with a 53-bit significand, ties to even. All values the program computes lie between
  \<open>2^-63\<close> and \<open>2^127\<close> in magnitude (sums and means of at most \<open>2^63\<close> integers below
  \<open>2^63\<close>), far from overflow and from the subnormal numbers.
\<close>

definition round_even :: "rat \<Rightarrow> int" where
  "round_even q =
     (let f = \<lfloor>q\<rfloor>; r = q - of_int f in
      if r < 1 / 2 then f
      else if 1 / 2 < r then f + 1
      else if even f then f else f + 1)"

text \<open>\<open>ilog2 q\<close> is the integer \<open>e\<close> with \<open>2^e \<le> q < 2^(e+1)\<close>, for positive \<open>q\<close>.\<close>

definition ilog2 :: "rat \<Rightarrow> int" where
  "ilog2 q =
     (case quotient_of q of (a, b) \<Rightarrow>
        let d = bitlen a - bitlen b in
        if 2 powi d \<le> q then d else d - 1)"

definition fl64 :: "rat \<Rightarrow> rat" where
  "fl64 x =
     (if x = 0 then 0
      else let u = 2 powi (ilog2 \<bar>x\<bar> - 52) in of_int (round_even (x / u)) * u)"

text \<open>
  \<open>fmt.Sprintf("%.2f", x)\<close>: the decimal expansion of \<open>x\<close> rounded to two places, ties to
  even; the sign is the sign of \<open>x\<close>, also when the digits are all zero.
\<close>

definition fmt_2f :: "rat \<Rightarrow> string" where
  "fmt_2f x =
     (let n = round_even (\<bar>x\<bar> * 100) in
      (if x < 0 then ''-'' else []) @ digits_of (n div 100) @ ''.''
        @ [digit_char (n mod 100 div 10), digit_char (n mod 10)])"

definition TrimSuffix :: "string \<Rightarrow> string \<Rightarrow> string" where
  "TrimSuffix s suffix =
     (if length suffix \<le> length s \<and> drop (length s - length suffix) s = suffix
      then take (length s - length suffix) s else s)"

text \<open>
  \<open>strconv.Atoi\<close> on a 64-bit platform, as the value it returns; the callers drop its
  error. A syntax error gives 0 and a range error the nearest \<open>int64\<close>. Strings of fewer
  than 19 bytes take the fast path, the others go through \<open>ParseInt\<close>, where an overflow
  is reported before the rest of the string is looked at.
\<close>

datatype parsed = SyntaxErr | RangeErr | Value int

fun ParseUint_loop :: "string \<Rightarrow> int \<Rightarrow> parsed" where
  "ParseUint_loop [] n = Value n"
| "ParseUint_loop (c # cs) n =
     (if \<not> is_digit c then SyntaxErr
      else if 2 ^ 64 \<le> n * 10 + (byte_of c - 48) then RangeErr
      else ParseUint_loop cs (n * 10 + (byte_of c - 48)))"

definition ParseUint :: "string \<Rightarrow> parsed" where
  "ParseUint s = (if s = [] then SyntaxErr else ParseUint_loop s 0)"

definition ParseInt :: "string \<Rightarrow> int" where
  "ParseInt s =
     (if s = [] then 0
      else let neg = (hd s = CHR ''-'');
               body = (if hd s = CHR ''+'' \<or> hd s = CHR ''-'' then tl s else s) in
        (case ParseUint body of
           SyntaxErr \<Rightarrow> 0
         | RangeErr \<Rightarrow> if neg then - (2 ^ 63) else 2 ^ 63 - 1
         | Value un \<Rightarrow>
             if \<not> neg \<and> 2 ^ 63 \<le> un then 2 ^ 63 - 1
             else if neg \<and> 2 ^ 63 < un then - (2 ^ 63)
             else if neg then - un else un))"

fun Atoi_loop :: "string \<Rightarrow> int \<Rightarrow> int option" where
  "Atoi_loop [] n = Some n"
| "Atoi_loop (c # cs) n =
     (if is_digit c then Atoi_loop cs (n * 10 + (byte_of c - 48)) else None)"

definition Atoi :: "string \<Rightarrow> int" where
  "Atoi s =
     (if 0 < length s \<and> length s < 19 then
        (let body = (if hd s = CHR ''-'' \<or> hd s = CHR ''+'' then tl s else s) in
         if body = [] then 0
         else (case Atoi_loop body 0 of
                 None \<Rightarrow> 0
               | Some n \<Rightarrow> if hd s = CHR ''-'' then - n else n))
      else ParseInt s)"

text \<open>\<open>time.Duration\<close>: a count of nanoseconds in an \<open>int64\<close>; \<open>String\<close> and \<open>Round\<close>.\<close>

fun fmtFrac :: "nat \<Rightarrow> int \<Rightarrow> bool \<Rightarrow> string \<times> int" where
  "fmtFrac 0 v print = ((if print then ''.'' else []), v)"
| "fmtFrac (Suc i) v print =
     (case fmtFrac i (v div 10) (print \<or> v mod 10 \<noteq> 0) of
        (s, v') \<Rightarrow> (s @ (if print \<or> v mod 10 \<noteq> 0 then [digit_char (v mod 10)] else []), v'))"

definition micro :: string where
  "micro = [CHR 0xC2, CHR 0xB5]"

definition Duration_String :: "int \<Rightarrow> string" where
  "Duration_String d =
     (let u = \<bar>d\<bar> in
      (if d < 0 then ''-'' else []) @
      (if u < 1000000000 then
         (if u = 0 then ''0s''
          else if u < 1000 then digits_of u @ ''ns''
          else if u < 1000000 then
            (case fmtFrac 3 u False of (f, v) \<Rightarrow> digits_of v @ f @ micro @ ''s'')
          else (case fmtFrac 6 u False of (f, v) \<Rightarrow> digits_of v @ f @ ''ms''))
       else
         (case fmtFrac 9 u False of (f, secs) \<Rightarrow>
            (if 0 < secs div 60 then
               (if 0 < secs div 60 div 60 then digits_of (secs div 60 div 60) @ ''h'' else [])
                 @ digits_of (secs div 60 mod 60) @ ''m''
             else [])
            @ digits_of (secs mod 60) @ f @ ''s'')))"

definition wrap64 :: "int \<Rightarrow> int" where
  "wrap64 x = (x + 2 ^ 63) mod 2 ^ 64 - 2 ^ 63"

definition lessThanHalf :: "int \<Rightarrow> int \<Rightarrow> bool" where
  "lessThanHalf x y = ((x mod 2 ^ 64 + x mod 2 ^ 64) mod 2 ^ 64 < y mod 2 ^ 64)"

definition Duration_Round :: "int \<Rightarrow> int \<Rightarrow> int" where
  "Duration_Round d m =
     (if m \<le> 0 then d
      else if d < 0 then
        (if lessThanHalf (- rem d m) m then wrap64 (d + (- rem d m))
         else if wrap64 (d - m + (- rem d m)) < d then wrap64 (d - m + (- rem d m))
         else - (2 ^ 63))
      else
        (if lessThanHalf (rem d m) m then wrap64 (d - rem d m)
         else if d < wrap64 (d + m - rem d m) then wrap64 (d + m - rem d m)
         else 2 ^ 63 - 1))"

definition Millisecond :: int where
  "Millisecond = 1000000"

section \<open>The world the program runs in\<close>

text \<open>
  The state the program reads and writes: the files it names, its two package-level
  variables \<open>resultsFile\<close> and \<open>speedWithoutVPN\<close>, and, for the claims about what is never
  attempted, the trace of what it does to its collaborators: the external commands it
  runs and the stats it hands to \<open>writeToFile\<close>.
\<close>

datatype file_state = NotExist | Unreadable | Content string

datatype event =
    Regions            \<comment> \<open>\<open>expressvpnctl get regions\<close>\<close>
  | Connect string     \<comment> \<open>\<open>expressvpnctl connect <region>\<close>\<close>
  | ConnectionState    \<comment> \<open>\<open>expressvpnctl get connectionstate\<close>\<close>
  | Disconnect         \<comment> \<open>\<open>expressvpnctl disconnect\<close>\<close>
  | Speedtest          \<comment> \<open>\<open>speedtest -f json-pretty\<close>\<close>
  | Store VPNStat      \<comment> \<open>a call of \<open>writeToFile\<close>\<close>

record world =
  files :: "string \<Rightarrow> file_state"
  resultsFile :: string
  speedWithoutVPN :: string
  trace :: "event list"

definition emit :: "event \<Rightarrow> world \<Rightarrow> world" where
  "emit e w = w\<lparr>trace := trace w @ [e]\<rparr>"

text \<open>
  How a part of the program ends: it returns, it panics (the process dies there), or it
  never returns (the connection poll has no bound).
\<close>

datatype outcome = Returned world | Panicked world | Blocked world

section \<open>Result store (app.go, lines 353--410)\<close>

text \<open>\<open>loadFromFile\<close>; \<open>Inl\<close> is a non-nil error.\<close>

definition loadFromFile :: "(string \<Rightarrow> file_state) \<Rightarrow> string \<Rightarrow> error + Results" where
  "loadFromFile fs fileName =
     (case fs fileName of
        NotExist \<Rightarrow> Inr zero_results
      | Unreadable \<Rightarrow> Inl ReadError
      | Content file \<Rightarrow> Unmarshal file)"

text \<open>
  \<open>saveToFile\<close>. \<open>MarshalIndent\<close> has no error at this type. Whether \<open>os.WriteFile\<close> fails
  is the environment's choice: \<open>None\<close> when it succeeds, \<open>Some left\<close> when it fails and
  leaves the file in state \<open>left\<close>.
\<close>

definition saveToFile ::
  "file_state option \<Rightarrow> Results \<Rightarrow> string \<Rightarrow> (string \<Rightarrow> file_state)
     \<Rightarrow> error option \<times> (string \<Rightarrow> file_state)" where
  "saveToFile failure data fileName fs =
     (case failure of
        None \<Rightarrow> (None, fs(fileName := Content (MarshalIndent data)))
      | Some left \<Rightarrow> (Some WriteError, fs(fileName := left)))"

text \<open>
  What \<open>writeToFile\<close> asks of its environment: the result of \<open>os.Hostname\<close>, the constant
  \<open>runtime.GOOS\<close>, the result of \<open>GetOSVersion\<close> (\<open>None\<close> when it panics: its Linux branch
  indexes the second field of the command's output split at colons) and the fate of the
  write.
\<close>

record store_env =
  hostname :: "error + string"
  goos :: string
  osVersion :: "string option"
  write_failure :: "file_state option"

text \<open>Lines 382--386: append, save, report a failure and return.\<close>

definition append_and_save :: "store_env \<Rightarrow> Results \<Rightarrow> VPNStat \<Rightarrow> world \<Rightarrow> world" where
  "append_and_save env data newStats w =
     w\<lparr>files := snd (saveToFile (write_failure env)
                      (data\<lparr>VPNStats := Some (elems (VPNStats data) @ [newStats])\<rparr>)
                      (resultsFile w) (files w))\<rparr>"

definition writeToFile :: "store_env \<Rightarrow> VPNStat \<Rightarrow> world \<Rightarrow> outcome" where
  "writeToFile env newStats w0 =
     (let w = emit (Store newStats) w0 in
      case loadFromFile (files w) (resultsFile w) of
        Inl err \<Rightarrow> Returned w
      | Inr data \<Rightarrow>
          if MachineName data = [] then
            (case hostname env of
               Inl err \<Rightarrow> Returned w
             | Inr h \<Rightarrow>
                 (case osVersion env of
                    None \<Rightarrow> Panicked w
                  | Some v \<Rightarrow>
                      Returned (append_and_save env
                        \<lparr>MachineName = h, OS = goos env @ '': '' @ v,
                         WithoutVPN = speedWithoutVPN w, VPNStats = Some []\<rparr> newStats w)))
          else Returned (append_and_save env data newStats w))"

section \<open>Measurement and aggregation (app.go, lines 157--313)\<close>

text \<open>
  One invocation of the speed test, as the program sees it: the command fails, its
  output does not parse, or it yields a result; \<open>Measured r now\<close> also carries the clock
  reading that becomes the sample's timestamp.
\<close>

datatype measurement = RunFailed | ParseFailed | Measured SpeedTestResult string

definition series_mode :: string where
  "series_mode = ''Tests ran in series (one after another)''"

definition parallel_mode :: string where
  "parallel_mode = ''Tests ran in parallel''"

definition Mbps :: "int \<Rightarrow> string" where
  "Mbps bandwidth = Sprintf_d (quo bandwidth 125000) @ ''Mbps''"

definition sample_stat :: "string \<Rightarrow> string \<Rightarrow> SpeedTestResult \<Rightarrow> string \<Rightarrow> VPNStat" where
  "sample_stat mode connectionTime result now =
     \<lparr>LocationName = ServerCountry result @ '', '' @ ServerLocation result,
      TimeToConnect = connectionTime,
      VPNDownloadSpeed = Mbps (DownloadBandwidth result),
      VPNUploadSpeed = Mbps (UploadBandwidth result),
      VPNLatency = fmt_2f (PingLatency result) @ ''ms'',
      Server = ServerHost result,
      Timestamp = now,
      Mode = mode\<rparr>"

definition down_arrow :: string where
  "down_arrow = [CHR 0xE2, CHR 0x96, CHR 0xBC]"

definition up_arrow :: string where
  "up_arrow = [CHR 0xE2, CHR 0x96, CHR 0xB2]"

definition baseline_text :: "SpeedTestResult \<Rightarrow> string" where
  "baseline_text result =
     Mbps (DownloadBandwidth result) @ '' '' @ down_arrow @ ''  ''
       @ Mbps (UploadBandwidth result) @ '' '' @ up_arrow"

text \<open>
  The averaging loop (lines 216--224 and 298--306), with its four variables, and the
  step after it (lines 226--230 and 308--312): \<open>None\<close> when nothing is written.
\<close>

fun average_loop ::
  "VPNStat list \<Rightarrow> rat \<times> rat \<times> int \<times> VPNStat \<Rightarrow> rat \<times> rat \<times> int \<times> VPNStat" where
  "average_loop [] acc = acc"
| "average_loop (stat # rest) (totalDownload, totalUpload, count, avgStat) =
     average_loop rest
       (fl64 (totalDownload + fl64 (of_int (Atoi (TrimSuffix (VPNDownloadSpeed stat) ''Mbps'')))),
        fl64 (totalUpload + fl64 (of_int (Atoi (TrimSuffix (VPNUploadSpeed stat) ''Mbps'')))),
        count + 1,
        stat)"

definition average :: "VPNStat list \<Rightarrow> VPNStat option" where
  "average vpnStats =
     (case average_loop vpnStats (0, 0, 0, zero_stat) of
        (totalDownload, totalUpload, count, avgStat) \<Rightarrow>
          if 0 < count then
            Some (avgStat
              \<lparr>VPNDownloadSpeed := fmt_2f (fl64 (totalDownload / fl64 (of_int count))) @ ''Mbps'',
               VPNUploadSpeed := fmt_2f (fl64 (totalUpload / fl64 (of_int count))) @ ''Mbps''\<rparr>)
          else None)"

definition persist_average :: "store_env \<Rightarrow> VPNStat list \<Rightarrow> world \<Rightarrow> outcome" where
  "persist_average env vpnStats w =
     (case average vpnStats of
        None \<Rightarrow> Returned w
      | Some avgStat \<Rightarrow> writeToFile env avgStat w)"

text \<open>
  \<open>speedTest\<close>. The list holds what the \<open>speedTestCount\<close> invocations of the batch return,
  one element for each turn of \<open>for range speedTestCount\<close>; a failed invocation returns
  from the function, which is \<open>None\<close> for the samples.
\<close>

fun speedTest_loop ::
  "string \<Rightarrow> measurement list \<Rightarrow> world \<Rightarrow> VPNStat list \<Rightarrow> world \<times> VPNStat list option" where
  "speedTest_loop connectionTime [] w vpnStats = (w, Some vpnStats)"
| "speedTest_loop connectionTime (m # ms) w vpnStats =
     (case m of
        RunFailed \<Rightarrow> (emit Speedtest w, None)
      | ParseFailed \<Rightarrow> (emit Speedtest w, None)
      | Measured result now \<Rightarrow>
          if connectionTime = [] then
            speedTest_loop connectionTime ms
              ((emit Speedtest w)\<lparr>speedWithoutVPN := baseline_text result\<rparr>) vpnStats
          else
            speedTest_loop connectionTime ms (emit Speedtest w)
              (vpnStats @ [sample_stat series_mode connectionTime result now]))"

definition speedTest :: "store_env \<Rightarrow> measurement list \<Rightarrow> string \<Rightarrow> world \<Rightarrow> outcome" where
  "speedTest env invocations connectionTime w =
     (case speedTest_loop connectionTime invocations w [] of
        (w', None) \<Rightarrow> Returned w'
      | (w', Some vpnStats) \<Rightarrow> persist_average env vpnStats w')"

text \<open>
  \<open>runParallelSpeedTests\<close>. The goroutines share nothing but the channel and, in a
  baseline batch, \<open>speedWithoutVPN\<close>; the list holds what the invocations return in the
  order in which the goroutines finish, which is the order of the channel.
\<close>

fun parallel_loop ::
  "string \<Rightarrow> measurement list \<Rightarrow> world \<Rightarrow> VPNStat list \<Rightarrow> world \<times> VPNStat list" where
  "parallel_loop connectionTime [] w resultsChan = (w, resultsChan)"
| "parallel_loop connectionTime (m # ms) w resultsChan =
     (case m of
        RunFailed \<Rightarrow> parallel_loop connectionTime ms (emit Speedtest w) resultsChan
      | ParseFailed \<Rightarrow> parallel_loop connectionTime ms (emit Speedtest w) resultsChan
      | Measured result now \<Rightarrow>
          if connectionTime = [] then
            parallel_loop connectionTime ms
              ((emit Speedtest w)\<lparr>speedWithoutVPN := baseline_text result\<rparr>) resultsChan
          else
            parallel_loop connectionTime ms (emit Speedtest w)
              (resultsChan @ [sample_stat parallel_mode connectionTime result now]))"

definition runParallelSpeedTests ::
  "store_env \<Rightarrow> measurement list \<Rightarrow> string \<Rightarrow> world \<Rightarrow> outcome" where
  "runParallelSpeedTests env invocations connectionTime w =
     (case parallel_loop connectionTime invocations w [] of
        (w', resultsChan) \<Rightarrow> persist_average env resultsChan w')"

section \<open>Connection lifecycle (app.go, lines 428--460)\<close>

text \<open>
  \<open>waitForConnection\<close>: \<open>poll k\<close> tells whether the \<open>k\<close>-th state query succeeds with
  \<open>Connected\<close>. The loop has no bound; it returns the number of queries it made, and
  \<open>None\<close> stands for the loop that never ends.
\<close>

partial_function (option) waitForConnection :: "(nat \<Rightarrow> bool) \<Rightarrow> nat \<Rightarrow> nat option" where
  "waitForConnection poll k =
     (if poll k then Some (Suc k) else waitForConnection poll (Suc k))"

record connect_env =
  connect_fails :: bool
  poll_connected :: "nat \<Rightarrow> bool"
  elapsed :: int

datatype connect_result = ConnectError world | Connected world int | NeverConnected world

definition connectToVPN :: "connect_env \<Rightarrow> string \<Rightarrow> world \<Rightarrow> connect_result" where
  "connectToVPN env region w =
     (if connect_fails env then ConnectError (emit (Connect region) w)
      else (case waitForConnection (poll_connected env) 0 of
              None \<Rightarrow> NeverConnected (emit (Connect region) w)
            | Some polls \<Rightarrow>
                Connected
                  (w\<lparr>trace := trace w @ Connect region # replicate polls ConnectionState\<rparr>)
                  (Duration_Round (elapsed env) Millisecond)))"

definition disconnectVPN :: "world \<Rightarrow> world" where
  "disconnectVPN w = emit Disconnect w"

section \<open>Region resolver (app.go, lines 331--351)\<close>

text \<open>
  \<open>strings.ToLower\<close>. A string of bytes below \<open>0x80\<close> takes the function's own loop, which
  lowers the letters \<open>A\<close> to \<open>Z\<close> and keeps every other byte (a string without such a
  letter is returned as it is). Every other string is handed to
  \<open>strings.Map(unicode.ToLower, s)\<close>; the case tables of package \<open>unicode\<close> are not part of
  the repository, and that mapping is the parameter \<open>mapLower\<close>.
\<close>

definition lower_byte :: "char \<Rightarrow> char" where
  "lower_byte c = (if 65 \<le> byte_of c \<and> byte_of c \<le> 90 then char_of (byte_of c + 32) else c)"

definition ToLower :: "(string \<Rightarrow> string) \<Rightarrow> string \<Rightarrow> string" where
  "ToLower mapLower s =
     (if list_all (\<lambda>c. byte_of c < 0x80) s then map lower_byte s else mapLower s)"

definition formattedLocation :: "(string \<Rightarrow> string) \<Rightarrow> Location \<Rightarrow> string" where
  "formattedLocation mapLower location =
     ToLower mapLower (Country location) @ ''-'' @ ToLower mapLower (City location)"

definition countryOnly :: "(string \<Rightarrow> string) \<Rightarrow> Location \<Rightarrow> string" where
  "countryOnly mapLower location = ToLower mapLower (Country location)"

text \<open>The loop \<open>for _, loc := range commandOutput\<close>, with both tests made on each entry.\<close>

fun findRegion_loop :: "string \<Rightarrow> string \<Rightarrow> string list \<Rightarrow> string" where
  "findRegion_loop fl co [] = ''''"
| "findRegion_loop fl co (loc # rest) =
     (if loc = fl then fl
      else if loc = co then co
      else findRegion_loop fl co rest)"

text \<open>
  \<open>findRegion\<close>; \<open>commandOutput\<close> is what \<open>getCommandOutput\<close> returned: the error of the
  region query, or the lines of its output.
\<close>

definition findRegion ::
  "(string \<Rightarrow> string) \<Rightarrow> error + string list \<Rightarrow> Location \<Rightarrow> string" where
  "findRegion mapLower commandOutput location =
     (case commandOutput of
        Inl err \<Rightarrow> ''''
      | Inr regions \<Rightarrow>
          findRegion_loop (formattedLocation mapLower location) (countryOnly mapLower location)
            regions)"

section \<open>Orchestrator (app.go, lines 119--154)\<close>

text \<open>
  What one turn of the location loop gets from outside: the mapping of \<open>strings.ToLower\<close>
  beyond ASCII, the answer to the region query, the connection attempt, the invocations
  of its batch and the environment of the write that may follow.
\<close>

record loc_env =
  unicodeLower :: "string \<Rightarrow> string"
  regions :: "error + string list"
  connection :: connect_env
  invocations :: "measurement list"
  store :: store_env

definition run_batch ::
  "bool \<Rightarrow> store_env \<Rightarrow> measurement list \<Rightarrow> string \<Rightarrow> world \<Rightarrow> outcome" where
  "run_batch singleThreaded env ms connectionTime w =
     (if singleThreaded then speedTest env ms connectionTime w
      else runParallelSpeedTests env ms connectionTime w)"

fun main_loop :: "bool \<Rightarrow> (Location \<times> loc_env) list \<Rightarrow> world \<Rightarrow> outcome" where
  "main_loop singleThreaded [] w = Returned w"
| "main_loop singleThreaded ((location, env) # rest) w =
     (if findRegion (unicodeLower env) (regions env) location = []
      then main_loop singleThreaded rest (emit Regions w)
      else
        (case connectToVPN (connection env)
                (findRegion (unicodeLower env) (regions env) location) (emit Regions w) of
           ConnectError w' \<Rightarrow> main_loop singleThreaded rest w'
         | NeverConnected w' \<Rightarrow> Blocked w'
         | Connected w' connectTime \<Rightarrow>
             (case run_batch singleThreaded (store env) (invocations env)
                     (Duration_String connectTime) w' of
                Returned w'' \<Rightarrow> main_loop singleThreaded rest (disconnectVPN w'')
              | Panicked w'' \<Rightarrow> Panicked w''
              | Blocked w'' \<Rightarrow> Blocked w'')))"


section \<open>Observations and sample inputs\<close>

text \<open>The stats handed to \<open>writeToFile\<close> so far, and the world in which an outcome ends.\<close>

definition stored :: "world \<Rightarrow> VPNStat list" where
  "stored w = concat (map (\<lambda>e. case e of Store s \<Rightarrow> [s] | _ \<Rightarrow> []) (trace w))"

fun final :: "outcome \<Rightarrow> world" where
  "final (Returned w) = w"
| "final (Panicked w) = w"
| "final (Blocked w) = w"


text \<open>
  For the statement about the average: the speed a sample's text stands for, as the
  averaging loop reads it, and the \<open>float64\<close> sum of such speeds, taken from the left.
\<close>

definition sample_speed :: "string \<Rightarrow> int" where
  "sample_speed s = Atoi (TrimSuffix s ''Mbps'')"

definition float_sum :: "int list \<Rightarrow> rat" where
  "float_sum vs = foldl (\<lambda>total v. fl64 (total + fl64 (of_int v))) 0 vs"

text \<open>
  Inputs for the concrete instances below: the values of the repository's tests.
\<close>

declare waitForConnection.simps [code]

definition example_result :: SpeedTestResult where
  "example_result =
     \<lparr>PingLatency = 51 / 2, DownloadBandwidth = 125000000, UploadBandwidth = 62500000,
      ServerHost = ''test.speedtest.com'', ServerName = ''TestServer'',
      ServerCountry = ''TestCountry'', ServerLocation = ''TestCity''\<rparr>"

definition example_world :: world where
  "example_world =
     \<lparr>files = (\<lambda>path. NotExist), resultsFile = ''results-20250101120000.json'',
      speedWithoutVPN = [], trace = []\<rparr>"

definition example_store :: store_env where
  "example_store =
     \<lparr>hostname = Inr ''box'', goos = ''linux'', osVersion = Some ''Ubuntu 20.04 LTS'',
      write_failure = None\<rparr>"

definition example_connection :: connect_env where
  "example_connection =
     \<lparr>connect_fails = False, poll_connected = (\<lambda>k. 2 \<le> k), elapsed = 1499600000\<rparr>"

text \<open>
  The locations of the examples are ASCII, and \<open>strings.ToLower\<close> never reaches the Unicode
  tables for them; this stands where that mapping is expected.
\<close>

definition beyond_ascii :: "string \<Rightarrow> string" where
  "beyond_ascii s = s"

definition example_loc_env :: loc_env where
  "example_loc_env =
     \<lparr>unicodeLower = beyond_ascii,
      regions = Inr [''netherlands-amsterdam'', ''romania-bucharest'', ''canada-toronto'', ''usa''],
      connection = example_connection,
      invocations = [Measured example_result ''2025-01-01 12:00:05''],
      store = example_store\<rparr>"

text \<open>
  Two stats, an environment whose host name is empty, and the worlds after a first
  append: \<open>world_with d\<close> has the document \<open>d\<close> in the results file.
\<close>

definition example_stat :: VPNStat where
  "example_stat = sample_stat parallel_mode ''1.5s'' example_result ''2025-01-01 12:00:05''"

definition later_stat :: VPNStat where
  "later_stat = sample_stat parallel_mode ''2.1s'' example_result ''2025-01-01 12:01:10''"

definition nameless_store :: store_env where
  "nameless_store = example_store\<lparr>hostname := Inr []\<rparr>"

definition named_document :: Results where
  "named_document =
     \<lparr>MachineName = ''box'', OS = ''linux: Ubuntu 20.04 LTS'', WithoutVPN = [],
      VPNStats = Some [example_stat]\<rparr>"

definition nameless_document :: Results where
  "nameless_document = named_document\<lparr>MachineName := []\<rparr>"

definition world_with :: "Results \<Rightarrow> world" where
  "world_with d =
     example_world\<lparr>files := (files example_world)(resultsFile example_world := Content (MarshalIndent d)),
                   trace := [Store example_stat]\<rparr>"

text \<open>The three stats of the repository's test of the average.\<close>

definition test_stats :: "VPNStat list" where
  "test_stats =
     [zero_stat\<lparr>LocationName := ''TestCountry, TestCity'', TimeToConnect := ''1.5s'',
                VPNDownloadSpeed := ''100Mbps'', VPNUploadSpeed := ''50Mbps''\<rparr>,
      zero_stat\<lparr>LocationName := ''TestCountry, TestCity'', TimeToConnect := ''1.5s'',
                VPNDownloadSpeed := ''200Mbps'', VPNUploadSpeed := ''150Mbps''\<rparr>,
      zero_stat\<lparr>LocationName := ''TestCountry, TestCity'', TimeToConnect := ''1.5s'',
                VPNDownloadSpeed := ''300Mbps'', VPNUploadSpeed := ''250Mbps''\<rparr>]"


section \<open>The token stream of an encoded value\<close>

text \<open>
  The tokens of a JSON value, as the scanner meets them in its encoding: the values of
  an array and the members of an object are separated by commas.
\<close>

fun sep_tokens :: "token list list \<Rightarrow> token list" where
  "sep_tokens [] = []"
| "sep_tokens [x] = x"
| "sep_tokens (x # y # ys) = x @ Comma # sep_tokens (y # ys)"

fun tokens :: "json \<Rightarrow> token list" where
  "tokens JNull = [TNull]"
| "tokens (JBool b) = [if b then TTrue else TFalse]"
| "tokens JNumber = [TNumber]"
| "tokens (JString s) = [TString s]"
| "tokens (JArray vs) = LBrack # sep_tokens (map tokens vs) @ [RBrack]"
| "tokens (JObject ms) =
     LBrace # sep_tokens (map (\<lambda>(k, v). TString k # Colon # tokens v) ms) @ [RBrace]"

definition prefix_tokens :: "token list \<Rightarrow> token list option \<Rightarrow> token list option" where
  "prefix_tokens ts r = map_option ((@) ts) r"

text \<open>
  What the encoder makes of a value: every string, keys too, is coerced to valid UTF-8.
  The encoder of this model writes no number (no field of \<open>Results\<close> is one).
\<close>

fun coerce_json :: "json \<Rightarrow> json" where
  "coerce_json (JString s) = JString (toValidUTF8 s)"
| "coerce_json (JArray vs) = JArray (map coerce_json vs)"
| "coerce_json (JObject ms) = JObject (map (\<lambda>(k, v). (toValidUTF8 k, coerce_json v)) ms)"
| "coerce_json v = v"

fun no_number :: "json \<Rightarrow> bool" where
  "no_number JNumber = False"
| "no_number (JArray vs) = list_all no_number vs"
| "no_number (JObject ms) = list_all (\<lambda>(k, v). no_number v) ms"
| "no_number v = True"

text \<open>A value fits under \<open>n\<close> open arrays and objects when the parser's depth limit admits it.\<close>

fun fits :: "nat \<Rightarrow> json \<Rightarrow> bool" where
  "fits n (JArray vs) = (n < maxNestingDepth \<and> list_all (fits (Suc n)) vs)"
| "fits n (JObject ms) = (n < maxNestingDepth \<and> list_all (\<lambda>(k, v). fits (Suc n) v) ms)"
| "fits n v = True"

definition resume :: "pstate \<times> frame list \<Rightarrow> token list \<Rightarrow> json option" where
  "resume c ts = run (fst c) (snd c) ts"

text \<open>A document with every string coerced to valid UTF-8, and the documents it leaves alone.\<close>

definition utf8_stat :: "VPNStat \<Rightarrow> VPNStat" where
  "utf8_stat s = \<lparr>LocationName = toValidUTF8 (LocationName s),
     TimeToConnect = toValidUTF8 (TimeToConnect s),
     VPNDownloadSpeed = toValidUTF8 (VPNDownloadSpeed s),
     VPNUploadSpeed = toValidUTF8 (VPNUploadSpeed s),
     VPNLatency = toValidUTF8 (VPNLatency s),
     Server = toValidUTF8 (Server s),
     Timestamp = toValidUTF8 (Timestamp s),
     Mode = toValidUTF8 (Mode s)\<rparr>"

definition utf8_results :: "Results \<Rightarrow> Results" where
  "utf8_results d = \<lparr>MachineName = toValidUTF8 (MachineName d),
     OS = toValidUTF8 (OS d),
     WithoutVPN = toValidUTF8 (WithoutVPN d),
     VPNStats = map_option (map utf8_stat) (VPNStats d)\<rparr>"

definition valid_stat :: "VPNStat \<Rightarrow> bool" where
  "valid_stat s \<longleftrightarrow>
     valid_utf8 (LocationName s) \<and> valid_utf8 (TimeToConnect s) \<and>
     valid_utf8 (VPNDownloadSpeed s) \<and> valid_utf8 (VPNUploadSpeed s) \<and>
     valid_utf8 (VPNLatency s) \<and> valid_utf8 (Server s) \<and>
     valid_utf8 (Timestamp s) \<and> valid_utf8 (Mode s)"

definition valid_results :: "Results \<Rightarrow> bool" where
  "valid_results d \<longleftrightarrow>
     valid_utf8 (MachineName d) \<and> valid_utf8 (OS d) \<and> valid_utf8 (WithoutVPN d) \<and>
     list_all valid_stat (elems (VPNStats d))"

text \<open>A document whose machine name is the single byte \<open>0xFF\<close>, which is not UTF-8.\<close>

definition garbled_document :: Results where
  "garbled_document = named_document\<lparr>MachineName := [CHR 0xFF]\<rparr>"

definition empty_disk :: "string \<Rightarrow> file_state" where
  "empty_disk = (\<lambda>path. NotExist)"

section \<open>What a batch is expected to gather\<close>

text \<open>
  An invocation that returned a result, and the samples of a batch through the VPN: one
  stat for each such invocation, in the order of the invocations.
\<close>

definition measured :: "measurement \<Rightarrow> bool" where
  "measured m = (case m of Measured result now \<Rightarrow> True | _ \<Rightarrow> False)"

fun samples :: "string \<Rightarrow> string \<Rightarrow> measurement list \<Rightarrow> VPNStat list" where
  "samples mode connectionTime [] = []"
| "samples mode connectionTime (Measured result now # ms) =
     sample_stat mode connectionTime result now # samples mode connectionTime ms"
| "samples mode connectionTime (m # ms) = samples mode connectionTime ms"


text \<open>The \<open>float64\<close> value \<open>total / float64(count)\<close> for a list of speeds.\<close>

definition float_mean :: "int list \<Rightarrow> rat" where
  "float_mean vs = fl64 (float_sum vs / fl64 (of_nat (length vs)))"

text \<open>
  A batch of forty whose download speeds are 1, 1, 1 and 37 times 0 Mbps, a store whose
  write fails after the file was truncated, and the mapping of the one name beyond ASCII
  in the examples (the German name of Austria, whose first letter is U+00D6).
\<close>

definition slow_result :: SpeedTestResult where
  "slow_result = example_result\<lparr>DownloadBandwidth := 125000, UploadBandwidth := 0\<rparr>"

definition idle_result :: SpeedTestResult where
  "idle_result = example_result\<lparr>DownloadBandwidth := 0, UploadBandwidth := 0\<rparr>"

definition tie_batch :: "measurement list" where
  "tie_batch =
     replicate 3 (Measured slow_result ''2025-01-01 12:00:05'')
       @ replicate 37 (Measured idle_result ''2025-01-01 12:00:09'')"


definition austria :: string where
  "austria = [CHR 0xC3, CHR 0x96] @ ''sterreich''"

definition austria_lower :: string where
  "austria_lower = [CHR 0xC3, CHR 0xB6] @ ''sterreich''"

definition austrian :: "string \<Rightarrow> string" where
  "austrian s = (if s = austria then austria_lower else s)"

text \<open>Two batches through the VPN: one of two results, one with a failed invocation between them.\<close>

definition pair_batch :: "measurement list" where
  "pair_batch =
     [Measured example_result ''2025-01-01 12:00:05'', Measured slow_result ''2025-01-01 12:00:09'']"

definition mixed_batch :: "measurement list" where
  "mixed_batch =
     [Measured example_result ''2025-01-01 12:00:05'', RunFailed,
      Measured slow_result ''2025-01-01 12:00:09'']"
section \<open>Properties of the measurement batches\<close>



lemma stored_emit:
  "stored (emit e w) = stored w @ (case e of Store s \<Rightarrow> [s] | _ \<Rightarrow> [])"
  by (simp add: stored_def emit_def)

lemma speedTest_loop_silent:
  "speedTest_loop ct ms w acc = (w', r) \<Longrightarrow>
   stored w' = stored w \<and> files w' = files w \<and> resultsFile w' = resultsFile w"
proof (induction ms arbitrary: w acc)
  case Nil
  then show ?case by simp
next
  case (Cons m ms)
  show ?case
  proof (cases m)
    case RunFailed
    with Cons.prems show ?thesis by (auto simp: stored_emit) (simp add: emit_def)+
  next
    case ParseFailed
    with Cons.prems show ?thesis by (auto simp: stored_emit) (simp add: emit_def)+
  next
    case (Measured result now)
    show ?thesis
    proof (cases "ct = []")
      case True
      with Cons.prems Measured
      have "speedTest_loop ct ms ((emit Speedtest w)\<lparr>speedWithoutVPN := baseline_text result\<rparr>) acc = (w', r)"
        by simp
      from Cons.IH [OF this] show ?thesis
        by (simp add: stored_def emit_def)
    next
      case False
      with Cons.prems Measured
      have "speedTest_loop ct ms (emit Speedtest w) (acc @ [sample_stat series_mode ct result now]) = (w', r)"
        by simp
      from Cons.IH [OF this] show ?thesis
        by (simp add: stored_def emit_def)
    qed
  qed
qed


lemma average_loop_count:
  "average_loop xs (td, tu, n, a) = (td', tu', n', a') \<Longrightarrow> n' = n + int (length xs)"
proof (induction xs arbitrary: td tu n a)
  case Nil
  then show ?case by simp
next
  case (Cons x xs)
  from Cons.prems Cons.IH show ?case by fastforce
qed


lemma average_None_iff: "average xs = None \<longleftrightarrow> xs = []"
proof (cases "average_loop xs (0, 0, 0, zero_stat)")
  case (fields td tu n a)
  from average_loop_count [OF this] have "n = int (length xs)" by simp
  with fields show ?thesis by (auto simp: average_def)
qed

lemma speedTest_loop_failure:
  "RunFailed \<in> set ms \<or> ParseFailed \<in> set ms \<Longrightarrow> snd (speedTest_loop ct ms w acc) = None"
proof (induction ms arbitrary: w acc)
  case Nil
  then show ?case by simp
next
  case (Cons m ms)
  then show ?case by (cases m) auto
qed



text \<open>
  C9. In series mode a failed invocation, or one whose output does not parse, makes
  \<open>speedTest\<close> return before the averaging step: no stat is handed to the store and the
  files are as they were, whatever the earlier invocations of the batch had measured.
\<close>

theorem series_failure_discards_batch:
  "RunFailed \<in> set ms \<or> ParseFailed \<in> set ms \<longrightarrow>
     snd (speedTest_loop connectionTime ms w []) = None \<and>
     (\<exists>w'. speedTest env ms connectionTime w = Returned w' \<and>
           stored w' = stored w \<and> files w' = files w)"
proof
  assume f: "RunFailed \<in> set ms \<or> ParseFailed \<in> set ms"
  from speedTest_loop_failure [OF f, of connectionTime w "[]"]
  obtain w' where l: "speedTest_loop connectionTime ms w [] = (w', None)"
    by (cases "speedTest_loop connectionTime ms w []") auto
  from speedTest_loop_silent [OF l] l
  show "snd (speedTest_loop connectionTime ms w []) = None \<and>
     (\<exists>w'. speedTest env ms connectionTime w = Returned w' \<and>
           stored w' = stored w \<and> files w' = files w)"
    by (simp add: speedTest_def)
qed

text \<open>A batch of three whose second invocation fails.\<close>

theorem series_failure_discards_batch_witness:
  "snd (speedTest_loop ''1.5s''
          [Measured example_result ''2025-01-01 12:00:00'', RunFailed,
           Measured example_result ''2025-01-01 12:00:09''] example_world []) = None \<and>
   (\<exists>w'. speedTest example_store
            [Measured example_result ''2025-01-01 12:00:00'', RunFailed,
             Measured example_result ''2025-01-01 12:00:09''] ''1.5s'' example_world = Returned w' \<and>
         stored w' = stored example_world \<and> files w' = files example_world)"
  using series_failure_discards_batch
      [of "[Measured example_result ''2025-01-01 12:00:00'', RunFailed,
            Measured example_result ''2025-01-01 12:00:09'']" "''1.5s''" example_world example_store]
  by simp

section \<open>Properties of the result store and of the run\<close>

lemma loop_frame:
  "files w' = files w \<Longrightarrow> resultsFile w' = resultsFile w \<Longrightarrow>
   w' = (w :: world)\<lparr>speedWithoutVPN := speedWithoutVPN w', trace := trace w'\<rparr>"
  by (cases w, cases w') simp

lemma stored_append_and_save: "stored (append_and_save env d s w) = stored w"
  by (simp add: append_and_save_def stored_def)

lemma resultsFile_append_and_save: "resultsFile (append_and_save env d s w) = resultsFile w"
  by (simp add: append_and_save_def)

lemma writeToFile_stored:
  "stored (final (writeToFile env s w)) = stored w @ [s] \<and>
   resultsFile (final (writeToFile env s w)) = resultsFile w"
  by (auto simp: writeToFile_def Let_def stored_emit stored_append_and_save
      resultsFile_append_and_save split: sum.splits option.splits)
     (simp_all add: emit_def stored_def)











section \<open>Properties of the encoding\<close>

subsection \<open>Bytes and escapes\<close>

lemma byte_of_range: "0 \<le> byte_of c \<and> byte_of c < 256"
  unfolding byte_of_def by (cases c) simp

lemma char_of_byte_of: "char_of (byte_of c) = c"
  by (simp add: byte_of_def)

lemma byte_of_char_of: "0 \<le> k \<Longrightarrow> k < 256 \<Longrightarrow> byte_of (char_of k) = k"
  by (simp add: byte_of_def of_char_of)

lemma byte_of_eq: "byte_of c = k \<Longrightarrow> c = char_of k"
  using char_of_byte_of [of c] by simp

lemma utf8_len_le: "utf8_len s \<le> length s"
  by (cases s) (auto simp: Let_def split: list.splits)

lemma utf8_len_append:
  "utf8_len s \<noteq> 0 \<Longrightarrow> utf8_len (take (utf8_len s) s @ t) = utf8_len s"
  by (cases s) (auto simp: Let_def split: list.splits if_splits)

lemma utf8_len_multi: "\<not> byte_of c < 0x80 \<Longrightarrow> utf8_len (c # cs) \<noteq> Suc 0"
  by (auto simp: Let_def split: list.splits)

lemma hexval_hexdigit: "0 \<le> d \<Longrightarrow> d < 16 \<Longrightarrow> hexval (hexdigit d) = Some d"
  by (auto simp: hexval_def hexdigit_def Let_def byte_of_char_of)


lemma backslash_neq_dquote [simp]: "backslash \<noteq> dquote" "dquote \<noteq> backslash"
  by (simp_all add: backslash_def dquote_def)

lemma byte_of_inj: "byte_of c = byte_of d \<Longrightarrow> c = d"
  by (metis char_of_byte_of)

lemma hexval_zero: "hexval CHR ''0'' = Some 0"
  by (simp add: hexval_def byte_of_def)

lemma unquote_backslash:
  "unquote (backslash # cs) =
     (case escape cs of None \<Rightarrow> None | Some (out, n) \<Rightarrow> prepend out (unquote (drop n cs)))"
  by simp

lemma escape_simple:
  "e \<noteq> CHR ''u'' \<Longrightarrow> simple_escape e = Some x \<Longrightarrow> escape (e # rest) = Some ([x], 1)"
  by (simp add: escape_def)

lemma escape_u00:
  assumes "0 \<le> x" "x < 0x80"
  shows "escape (CHR ''u'' # CHR ''0'' # CHR ''0'' # hexdigit (x div 16) # hexdigit (x mod 16) # rest)
           = Some ([char_of x], 5)"
proof -
  have d: "0 \<le> x div 16" "x div 16 < 16" "0 \<le> x mod 16" "x mod 16 < 16"
    using assms by simp_all
  have "getu4 (CHR ''0'' # CHR ''0'' # hexdigit (x div 16) # hexdigit (x mod 16) # rest) = Some x"
    using d by (simp add: hexval_zero hexval_hexdigit)
  moreover have "\<not> is_surrogate x" using assms by (simp add: is_surrogate_def)
  moreover have "encodeRune x = [char_of x]" using assms by (simp add: encodeRune_def)
  ultimately show ?thesis by (simp add: escape_def)
qed

lemma unquote_escape_byte:
  assumes "byte_of c < 0x80" "\<not> htmlSafe c"
  shows "unquote (escape_byte c @ rest) = prepend [c] (unquote rest)"
proof -
  let ?x = "byte_of c"
  have r: "0 \<le> ?x" using byte_of_range [of c] by simp
  consider (q) "?x = 0x5C \<or> ?x = 0x22"
    | (b) "?x = 0x08" | (f) "?x = 0x0C" | (n) "?x = 0x0A" | (cr) "?x = 0x0D" | (t) "?x = 0x09"
    | (u) "?x \<noteq> 0x5C" "?x \<noteq> 0x22" "?x \<noteq> 0x08" "?x \<noteq> 0x0C" "?x \<noteq> 0x0A" "?x \<noteq> 0x0D" "?x \<noteq> 0x09"
    by blast
  then show ?thesis
  proof cases
    case q
    have "byte_of backslash = 0x5C" "byte_of dquote = 0x22"
      by (simp_all add: byte_of_def backslash_def dquote_def)
    with q have c: "c = backslash \<or> c = dquote"
      by (auto intro: byte_of_inj)
    then have "c \<noteq> CHR ''u''" "simple_escape c = Some c"
      by (auto simp: simple_escape_def backslash_def dquote_def)
    from escape_simple [OF this] q show ?thesis
      by (simp add: escape_byte_def Let_def)
  next
    case b
    then have c: "c = CHR 0x08" by (intro byte_of_inj) (simp add: byte_of_def)
    have "escape (CHR ''b'' # rest) = Some ([CHR 0x08], 1)"
      by (rule escape_simple) (simp_all add: simple_escape_def backslash_def dquote_def)
    with b c show ?thesis by (simp add: escape_byte_def Let_def)
  next
    case f
    then have c: "c = CHR 0x0C" by (intro byte_of_inj) (simp add: byte_of_def)
    have "escape (CHR ''f'' # rest) = Some ([CHR 0x0C], 1)"
      by (rule escape_simple) (simp_all add: simple_escape_def backslash_def dquote_def)
    with f c show ?thesis by (simp add: escape_byte_def Let_def)
  next
    case n
    then have c: "c = CHR 0x0A" by (intro byte_of_inj) (simp add: byte_of_def)
    have "escape (CHR ''n'' # rest) = Some ([CHR 0x0A], 1)"
      by (rule escape_simple) (simp_all add: simple_escape_def backslash_def dquote_def)
    with n c show ?thesis by (simp add: escape_byte_def Let_def)
  next
    case cr
    then have c: "c = CHR 0x0D" by (intro byte_of_inj) (simp add: byte_of_def)
    have "escape (CHR ''r'' # rest) = Some ([CHR 0x0D], 1)"
      by (rule escape_simple) (simp_all add: simple_escape_def backslash_def dquote_def)
    with cr c show ?thesis by (simp add: escape_byte_def Let_def)
  next
    case t
    then have c: "c = CHR 0x09" by (intro byte_of_inj) (simp add: byte_of_def)
    have "escape (CHR ''t'' # rest) = Some ([CHR 0x09], 1)"
      by (rule escape_simple) (simp_all add: simple_escape_def backslash_def dquote_def)
    with t c show ?thesis by (simp add: escape_byte_def Let_def)
  next
    case u
    from escape_u00 [OF r assms(1), of rest] u show ?thesis
      by (simp add: escape_byte_def Let_def char_of_byte_of)
  qed
qed

lemma unquote_safe:
  assumes "byte_of c < 0x80" "htmlSafe c"
  shows "unquote (c # rest) = prepend [c] (unquote rest)"
proof -
  from assms(2) have "c \<noteq> dquote" "c \<noteq> backslash" "\<not> byte_of c < 0x20"
    by (auto simp: htmlSafe_def Let_def dquote_def backslash_def byte_of_def)
  with assms(1) show ?thesis by simp
qed

lemma unquote_fffd:
  "unquote ((backslash # ''ufffd'') @ rest) = prepend replacement (unquote rest)"
proof -
  have "encodeRune 0xFFFD = replacement" by code_simp
  moreover have "getu4 (''fffd'' @ rest) = Some 0xFFFD" by (simp add: hexval_def byte_of_def)
  ultimately have "escape (''ufffd'' @ rest) = Some (replacement, 5)"
    by (simp add: escape_def is_surrogate_def)
  then show ?thesis by simp
qed

lemma unquote_2028:
  "unquote ((backslash # ''u2028'') @ rest) = prepend line_sep (unquote rest)"
proof -
  have "encodeRune 0x2028 = line_sep" by code_simp
  moreover have "getu4 (''2028'' @ rest) = Some 0x2028" by (simp add: hexval_def byte_of_def)
  ultimately have "escape (''u2028'' @ rest) = Some (line_sep, 5)"
    by (simp add: escape_def is_surrogate_def)
  then show ?thesis by simp
qed

lemma unquote_2029:
  "unquote ((backslash # ''u2029'') @ rest) = prepend para_sep (unquote rest)"
proof -
  have "encodeRune 0x2029 = para_sep" by code_simp
  moreover have "getu4 (''2029'' @ rest) = Some 0x2029" by (simp add: hexval_def byte_of_def)
  ultimately have "escape (''u2029'' @ rest) = Some (para_sep, 5)"
    by (simp add: escape_def is_surrogate_def)
  then show ?thesis by simp
qed

subsection \<open>A quoted string is read back as its valid UTF-8\<close>

lemma high_byte_plain:
  assumes "\<not> byte_of c < 0x80"
  shows "c \<noteq> dquote" "c \<noteq> backslash" "\<not> byte_of c < 0x20"
  using assms by (auto simp: dquote_def backslash_def byte_of_def)

lemma utf8_len_sep: "take 3 (c # cs) = line_sep \<or> take 3 (c # cs) = para_sep \<Longrightarrow> utf8_len (c # cs) = 3"
  by (cases cs; cases "tl cs")
     (auto simp: line_sep_def para_sep_def Let_def byte_of_def cont_def second_ok_def)

lemma unquote_multi:
  assumes "\<not> byte_of c < 0x80" "utf8_len (c # cs) \<noteq> 0"
  shows "unquote (take (utf8_len (c # cs)) (c # cs) @ rest)
           = prepend (take (utf8_len (c # cs)) (c # cs)) (unquote rest)"
proof -
  let ?n = "utf8_len (c # cs)"
  from assms(2) utf8_len_le [of "c # cs"] obtain m where m: "?n = Suc m" "m \<le> length cs"
    by (cases ?n) auto
  have l: "utf8_len (c # take m cs @ rest) = ?n"
    using utf8_len_append [OF assms(2), of rest] m by simp
  have "unquote (c # take m cs @ rest)
      = prepend (take ?n (c # take m cs @ rest)) (unquote (drop (?n - 1) (take m cs @ rest)))"
    using high_byte_plain [OF assms(1)] assms(1) l m
    by (subst unquote.simps) simp
  with m show ?thesis by simp
qed

lemma prepend_Some_eq: "prepend p (Some (s, rest)) = Some (p @ s, rest)"
  by (simp add: prepend_def)

lemma unquote_appendString:
  "unquote (appendString s @ dquote # rest) = Some (toValidUTF8 s, rest)"
proof (induction s rule: appendString.induct)
  case 1
  show ?case by simp
next
  case (2 c cs)
  show ?case
  proof (cases "byte_of c < 0x80")
    case True
    from "2.IH"(1) [OF True]
    have ih: "unquote (appendString cs @ dquote # rest) = Some (toValidUTF8 cs, rest)" .
    have v: "toValidUTF8 (c # cs) = c # toValidUTF8 cs" using True by (simp add: Let_def)
    show ?thesis
    proof (cases "htmlSafe c")
      case True
      with \<open>byte_of c < 0x80\<close> ih v unquote_safe [of c "appendString cs @ dquote # rest"]
      show ?thesis by (simp add: prepend_Some_eq)
    next
      case False
      with \<open>byte_of c < 0x80\<close> ih v unquote_escape_byte [of c "appendString cs @ dquote # rest"]
      show ?thesis by (simp add: prepend_Some_eq)
    qed
  next
    case False
    note high = this
    show ?thesis
    proof (cases "utf8_len (c # cs) = 0")
      case True
      from "2.IH"(2) [OF high True]
      have ih: "unquote (appendString cs @ dquote # rest) = Some (toValidUTF8 cs, rest)" .
      have "appendString (c # cs) = (backslash # ''ufffd'') @ appendString cs"
        using high True by simp
      moreover have "toValidUTF8 (c # cs) = replacement @ toValidUTF8 cs"
        using True by simp
      ultimately show ?thesis
        using unquote_fffd [of "appendString cs @ dquote # rest"] ih
        by (simp add: prepend_Some_eq)
    next
      case False
      note valid = this
      show ?thesis
      proof (cases "take 3 (c # cs) = line_sep")
        case True
        from "2.IH"(3) [OF high valid True]
        have ih: "unquote (appendString (drop 2 cs) @ dquote # rest) = Some (toValidUTF8 (drop 2 cs), rest)" .
        from True utf8_len_sep [of c cs] have n: "utf8_len (c # cs) = 3" by simp
        have "appendString (c # cs) = (backslash # ''u2028'') @ appendString (drop 2 cs)"
          using high valid True by simp
        moreover have "toValidUTF8 (c # cs) = line_sep @ toValidUTF8 (drop 2 cs)"
          using n True by simp
        ultimately show ?thesis
          using unquote_2028 [of "appendString (drop 2 cs) @ dquote # rest"] ih
          by (simp add: prepend_Some_eq)
      next
        case False
        note nls = this
        show ?thesis
        proof (cases "take 3 (c # cs) = para_sep")
          case True
          from "2.IH"(4) [OF high valid nls True]
          have ih: "unquote (appendString (drop 2 cs) @ dquote # rest) = Some (toValidUTF8 (drop 2 cs), rest)" .
          from True utf8_len_sep [of c cs] have n: "utf8_len (c # cs) = 3" by simp
          have "appendString (c # cs) = (backslash # ''u2029'') @ appendString (drop 2 cs)"
            using high valid nls True by simp
          moreover have "toValidUTF8 (c # cs) = para_sep @ toValidUTF8 (drop 2 cs)"
            using n True by simp
          ultimately show ?thesis
            using unquote_2029 [of "appendString (drop 2 cs) @ dquote # rest"] ih
            by (simp add: prepend_Some_eq)
        next
          case False
          let ?n = "utf8_len (c # cs)"
          from "2.IH"(5) [OF high valid nls False]
          have ih: "unquote (appendString (drop (?n - 1) cs) @ dquote # rest)
              = Some (toValidUTF8 (drop (?n - 1) cs), rest)" .
          have "appendString (c # cs) = take ?n (c # cs) @ appendString (drop (?n - 1) cs)"
            using high valid nls False by simp
          moreover have "toValidUTF8 (c # cs) = take ?n (c # cs) @ toValidUTF8 (drop (?n - 1) cs)"
            using valid by simp
          ultimately show ?thesis
            using unquote_multi [OF high valid, of "appendString (drop (?n - 1) cs) @ dquote # rest"] ih
            by (simp add: prepend_Some_eq)
        qed
      qed
    qed
  qed
qed

lemma toValidUTF8_valid: "valid_utf8 s \<Longrightarrow> toValidUTF8 s = s"
proof (induction s rule: toValidUTF8.induct)
  case 1
  show ?case by simp
next
  case (2 c cs)
  let ?n = "utf8_len (c # cs)"
  from "2.prems" have v: "?n \<noteq> 0" "valid_utf8 (drop (?n - 1) cs)" by simp_all
  from "2.IH"(2) [OF v] have "toValidUTF8 (drop (?n - 1) cs) = drop (?n - 1) cs" .
  moreover from v(1) obtain m where "?n = Suc m" by (cases ?n) auto
  ultimately show ?case using v(1) by simp
qed

subsection \<open>The scanner on an encoded value\<close>
lemma prefix_tokens_Nil: "prefix_tokens [] r = r"
  by (cases r) (simp_all add: prefix_tokens_def)

lemma prefix_tokens_append: "prefix_tokens xs (prefix_tokens ys r) = prefix_tokens (xs @ ys) r"
  by (cases r) (simp_all add: prefix_tokens_def)

lemma cons_token_prefix: "cons_token t (prefix_tokens ts r) = prefix_tokens (t # ts) r"
  by (cases r) (simp_all add: prefix_tokens_def cons_token_def)

lemma cons_token_eq: "cons_token t r = prefix_tokens [t] r"
  by (cases r) (simp_all add: prefix_tokens_def cons_token_def)

lemma tokenize_spaces: "tokenize (replicate n CHR '' '' @ rest) = tokenize rest"
  by (induction n) (simp_all add: is_ws_def)

lemma tokenize_newline: "tokenize (newline d @ rest) = tokenize rest"
  by (simp add: newline_def is_ws_def tokenize_spaces)

lemma tokenize_quote:
  "tokenize (quote s @ rest) = prefix_tokens [TString (toValidUTF8 s)] (tokenize rest)"
  by (simp add: quote_def is_ws_def dquote_def unquote_appendString [unfolded dquote_def]
      cons_token_eq)

lemma tokenize_punct:
  "tokenize (CHR ''['' # rest) = prefix_tokens [LBrack] (tokenize rest)"
  "tokenize (CHR '']'' # rest) = prefix_tokens [RBrack] (tokenize rest)"
  "tokenize (CHR ''{'' # rest) = prefix_tokens [LBrace] (tokenize rest)"
  "tokenize (CHR ''}'' # rest) = prefix_tokens [RBrace] (tokenize rest)"
  "tokenize (CHR '','' # rest) = prefix_tokens [Comma] (tokenize rest)"
  "tokenize (CHR '':'' # rest) = prefix_tokens [Colon] (tokenize rest)"
  "tokenize (CHR '' '' # rest) = tokenize rest"
  by (simp_all add: is_ws_def cons_token_eq)

lemma tokenize_null:
  "tokenize (CHR ''n'' # CHR ''u'' # CHR ''l'' # CHR ''l'' # rest) = prefix_tokens [TNull] (tokenize rest)"
  by (simp add: is_ws_def dquote_def is_digit_def byte_of_def cons_token_eq)

lemma tokenize_true:
  "tokenize (CHR ''t'' # CHR ''r'' # CHR ''u'' # CHR ''e'' # rest) = prefix_tokens [TTrue] (tokenize rest)"
  by (simp add: is_ws_def dquote_def is_digit_def byte_of_def cons_token_eq)

lemma tokenize_false:
  "tokenize (CHR ''f'' # CHR ''a'' # CHR ''l'' # CHR ''s'' # CHR ''e'' # rest)
     = prefix_tokens [TFalse] (tokenize rest)"
  by (simp add: is_ws_def dquote_def is_digit_def byte_of_def cons_token_eq)

lemma tokenize_join:
  assumes "\<And>x rest. x \<in> set xs \<Longrightarrow> tokenize (f x @ rest) = prefix_tokens (g x) (tokenize rest)"
  shows "tokenize (join ('','' @ newline n) (map f xs) @ rest)
           = prefix_tokens (sep_tokens (map g xs)) (tokenize rest)"
  using assms
proof (induction xs rule: induct_list012)
  case 1
  show ?case by (simp add: prefix_tokens_Nil)
next
  case (2 x)
  then show ?case by simp
next
  case (3 x y zs)
  have "tokenize (join ('','' @ newline n) (map f (y # zs)) @ rest)
      = prefix_tokens (sep_tokens (map g (y # zs))) (tokenize rest)"
    by (rule "3.IH"(2)) (simp add: "3.prems")
  then show ?case
    by (simp add: "3.prems" tokenize_punct tokenize_newline prefix_tokens_append
        del: tokenize.simps)
qed

lemma tokenize_indent_json:
  "no_number v \<Longrightarrow>
   tokenize (indent_json d v @ rest) = prefix_tokens (tokens (coerce_json v)) (tokenize rest)"
proof (induction v arbitrary: d rest)
  case JNull
  show ?case by (simp add: tokenize_null del: tokenize.simps)
next
  case (JBool b)
  show ?case by (cases b) (simp_all add: tokenize_true tokenize_false del: tokenize.simps)
next
  case JNumber
  then show ?case by simp
next
  case (JString s)
  show ?case by (simp add: tokenize_quote del: tokenize.simps)
next
  case (JArray vs)
  show ?case
  proof (cases "vs = []")
    case True
    then show ?thesis
      by (simp add: tokenize_punct prefix_tokens_append del: tokenize.simps)
  next
    case False
    have e: "\<And>x rest. x \<in> set vs \<Longrightarrow>
        tokenize (indent_json (Suc d) x @ rest) = prefix_tokens (tokens (coerce_json x)) (tokenize rest)"
      using JArray.IH JArray.prems by (simp add: list_all_iff)
    from tokenize_join [of vs "indent_json (Suc d)" "\<lambda>x. tokens (coerce_json x)", OF e]
    show ?thesis
      using False
      by (simp add: tokenize_punct tokenize_newline prefix_tokens_append comp_def
          del: tokenize.simps)
  qed
next
  case (JObject ms)
  show ?case
  proof (cases "ms = []")
    case True
    then show ?thesis
      by (simp add: tokenize_punct prefix_tokens_append del: tokenize.simps)
  next
    case False
    have e: "\<And>x rest. x \<in> set ms \<Longrightarrow>
        tokenize ((case x of (k, v) \<Rightarrow> quote k @ '': '' @ indent_json (Suc d) v) @ rest)
          = prefix_tokens (case x of (k, v) \<Rightarrow>
              TString (toValidUTF8 k) # Colon # tokens (coerce_json v)) (tokenize rest)"
    proof -
      fix x rest
      assume x: "x \<in> set ms"
      obtain k v where kv: "x = (k, v)" by (cases x)
      with x JObject.prems have "no_number v" by (auto simp: list_all_iff)
      moreover from x kv have "v \<in> Basic_BNFs.snds x" by simp
      ultimately have "tokenize (indent_json (Suc d) v @ rest)
          = prefix_tokens (tokens (coerce_json v)) (tokenize rest)"
        using JObject.IH [OF x] by blast
      with kv show "tokenize ((case x of (k, v) \<Rightarrow> quote k @ '': '' @ indent_json (Suc d) v) @ rest)
          = prefix_tokens (case x of (k, v) \<Rightarrow>
              TString (toValidUTF8 k) # Colon # tokens (coerce_json v)) (tokenize rest)"
        by (simp add: tokenize_quote tokenize_punct prefix_tokens_append del: tokenize.simps)
    qed
    from tokenize_join [of ms "\<lambda>(k, v). quote k @ '': '' @ indent_json (Suc d) v"
        "\<lambda>(k, v). TString (toValidUTF8 k) # Colon # tokens (coerce_json v)", OF e]
    show ?thesis
      using False
      by (simp add: tokenize_punct tokenize_newline prefix_tokens_append
          case_prod_unfold comp_def del: tokenize.simps)
  qed
qed

subsection \<open>The parser on the tokens of a value\<close>
lemma tokens_first: "\<exists>t r. tokens v = t # r \<and> t \<noteq> RBrack"
  by (cases v) auto

lemma sep_tokens_first:
  assumes "xs \<noteq> []" "\<And>x. x \<in> set xs \<Longrightarrow> \<exists>t r. x = t # r \<and> P t"
  shows "\<exists>t r. sep_tokens xs = t # r \<and> P t"
proof (cases xs)
  case Nil
  with assms show ?thesis by simp
next
  case (Cons x ys)
  then have "x \<in> set xs" by simp
  from assms(2) [OF this] obtain t r where x: "x = t # r" "P t" by blast
  show ?thesis
    by (cases ys) (simp_all add: Cons x)
qed

lemma step_or_close_value: "t \<noteq> RBrack \<Longrightarrow> step ExpValueOrClose stk t = step ExpValue stk t"
  by (cases t) (auto split: list.splits frame.splits)

lemma step_or_close_key:
  "step ExpKeyOrClose stk (TString k) = step ExpKey stk (TString k)"
  by (auto split: list.splits frame.splits)

lemma run_or_close_value:
  "t \<noteq> RBrack \<Longrightarrow> run ExpValueOrClose stk (t # ts) = run ExpValue stk (t # ts)"
  by (simp add: step_or_close_value del: step.simps)

lemma run_or_close_key:
  "run ExpKeyOrClose stk (TString k # ts) = run ExpKey stk (TString k # ts)"
  by (simp add: step_or_close_key del: step.simps)

lemma run_elems:
  assumes "\<And>v es ts. v \<in> set vs \<Longrightarrow>
      run ExpValue (FArray es # stk) (tokens v @ ts)
        = run ExpCommaOrClose (FArray (es @ [v]) # stk) ts"
    and "vs \<noteq> []"
  shows "run ExpValue (FArray es # stk) (sep_tokens (map tokens vs) @ RBrack # ts)
           = resume (complete (JArray (es @ vs)) stk) ts"
  using assms
proof (induction vs arbitrary: es rule: induct_list012)
  case 1
  then show ?case by simp
next
  case (2 v)
  then show ?case by (simp add: resume_def case_prod_beta)
next
  case (3 v w ws)
  have "run ExpValue (FArray (es @ [v]) # stk) (sep_tokens (map tokens (w # ws)) @ RBrack # ts)
      = resume (complete (JArray ((es @ [v]) @ w # ws)) stk) ts"
    by (rule "3.IH"(2)) (simp_all add: "3.prems")
  then show ?case by (simp add: "3.prems"(1))
qed

lemma run_members:
  assumes "\<And>k v ms k0 ts. (k, v) \<in> set kvs \<Longrightarrow>
      run ExpValue (FObject ms k # stk) (tokens v @ ts)
        = run ExpCommaOrClose (FObject (ms @ [(k, v)]) k # stk) ts"
    and "kvs \<noteq> []"
  shows "run ExpKey (FObject ms k0 # stk)
           (sep_tokens (map (\<lambda>(k, v). TString k # Colon # tokens v) kvs) @ RBrace # ts)
           = resume (complete (JObject (ms @ kvs)) stk) ts"
  using assms
proof (induction kvs arbitrary: ms k0 rule: induct_list012)
  case 1
  then show ?case by simp
next
  case (2 x)
  obtain k v where x: "x = (k, v)" by (cases x)
  with 2 show ?case by (simp add: resume_def case_prod_beta)
next
  case (3 x y zs)
  obtain k v where x: "x = (k, v)" by (cases x)
  have "run ExpKey (FObject (ms @ [x]) k # stk)
          (sep_tokens (map (\<lambda>(k, v). TString k # Colon # tokens v) (y # zs)) @ RBrace # ts)
      = resume (complete (JObject ((ms @ [x]) @ y # zs)) stk) ts"
    by (rule "3.IH"(2)) (simp_all add: "3.prems")
  then show ?case using x by (simp add: "3.prems"(1))
qed

lemma run_tokens:
  "fits (length stk) v \<Longrightarrow> run ExpValue stk (tokens v @ ts) = resume (complete v stk) ts"
proof (induction v arbitrary: stk ts)
  case JNull
  show ?case by (simp add: resume_def split: prod.splits)
next
  case (JBool b)
  show ?case by (simp add: resume_def split: prod.splits)
next
  case JNumber
  show ?case by (simp add: resume_def split: prod.splits)
next
  case (JString s)
  show ?case by (simp add: resume_def split: prod.splits)
next
  case (JArray vs)
  from JArray.prems have n: "length stk < maxNestingDepth" by simp
  show ?case
  proof (cases "vs = []")
    case True
    with n show ?thesis by (simp add: resume_def split: prod.splits)
  next
    case False
    have e: "\<And>v es ts. v \<in> set vs \<Longrightarrow>
        run ExpValue (FArray es # stk) (tokens v @ ts)
          = run ExpCommaOrClose (FArray (es @ [v]) # stk) ts"
    proof -
      fix v es ts
      assume v: "v \<in> set vs"
      with JArray.prems have "fits (length (FArray es # stk)) v" by (simp add: list_all_iff)
      from JArray.IH [OF v this] show "run ExpValue (FArray es # stk) (tokens v @ ts)
          = run ExpCommaOrClose (FArray (es @ [v]) # stk) ts"
        by (simp add: resume_def)
    qed
    have "\<exists>t r. sep_tokens (map tokens vs) = t # r \<and> t \<noteq> RBrack"
    proof (rule sep_tokens_first)
      show "map tokens vs \<noteq> []" using False by simp
    next
      fix x
      assume "x \<in> set (map tokens vs)"
      then obtain v where "x = tokens v" by auto
      then show "\<exists>t r. x = t # r \<and> t \<noteq> RBrack" using tokens_first by simp
    qed
    then obtain t r where t: "sep_tokens (map tokens vs) = t # r" "t \<noteq> RBrack"
      by blast
    have "run ExpValue stk (tokens (JArray vs) @ ts)
        = run ExpValueOrClose (FArray [] # stk) (sep_tokens (map tokens vs) @ RBrack # ts)"
      using n by simp
    also have "\<dots> = run ExpValue (FArray [] # stk) (sep_tokens (map tokens vs) @ RBrack # ts)"
      using t run_or_close_value [of t] by simp
    also have "\<dots> = resume (complete (JArray ([] @ vs)) stk) ts"
      using e False by (rule run_elems)
    finally show ?thesis by simp
  qed
next
  case (JObject kvs)
  from JObject.prems have n: "length stk < maxNestingDepth" by simp
  show ?case
  proof (cases "kvs = []")
    case True
    with n show ?thesis by (simp add: resume_def split: prod.splits)
  next
    case False
    have e: "\<And>k v ms k0 ts. (k, v) \<in> set kvs \<Longrightarrow>
        run ExpValue (FObject ms k # stk) (tokens v @ ts)
          = run ExpCommaOrClose (FObject (ms @ [(k, v)]) k # stk) ts"
    proof -
      fix k v ms ts
      assume kv: "(k, v) \<in> set kvs"
      with JObject.prems have f: "fits (length (FObject ms k # stk)) v"
        by (auto simp: list_all_iff)
      have "v \<in> Basic_BNFs.snds (k, v)" by simp
      from JObject.IH [OF kv this f] show "run ExpValue (FObject ms k # stk) (tokens v @ ts)
          = run ExpCommaOrClose (FObject (ms @ [(k, v)]) k # stk) ts"
        by (simp add: resume_def)
    qed
    have "\<exists>t r. sep_tokens (map (\<lambda>(k, v). TString k # Colon # tokens v) kvs) = t # r
        \<and> (\<exists>k. t = TString k)"
    proof (rule sep_tokens_first)
      show "map (\<lambda>(k, v). TString k # Colon # tokens v) kvs \<noteq> []" using False by simp
    next
      fix x
      assume "x \<in> set (map (\<lambda>(k, v). TString k # Colon # tokens v) kvs)"
      then obtain k v where "x = TString k # Colon # tokens v" by auto
      then show "\<exists>t r. x = t # r \<and> (\<exists>k. t = TString k)" by simp
    qed
    then obtain k r where t: "sep_tokens (map (\<lambda>(k, v). TString k # Colon # tokens v) kvs)
        = TString k # r"
      by blast
    have "run ExpValue stk (tokens (JObject kvs) @ ts)
        = run ExpKeyOrClose (FObject [] [] # stk)
            (sep_tokens (map (\<lambda>(k, v). TString k # Colon # tokens v) kvs) @ RBrace # ts)"
      using n by simp
    also have "\<dots> = run ExpKey (FObject [] [] # stk)
            (sep_tokens (map (\<lambda>(k, v). TString k # Colon # tokens v) kvs) @ RBrace # ts)"
      using t run_or_close_key [of "FObject [] [] # stk" k] by simp
    also have "\<dots> = resume (complete (JObject ([] @ kvs)) stk) ts"
      using e False by (rule run_members)
    finally show ?thesis by simp
  qed
qed

lemma run_tokens_top: "fits 0 v \<Longrightarrow> run ExpValue [] (tokens v) = Some v"
  using run_tokens [of "[]" v "[]"] by (simp add: resume_def)

subsection \<open>Decoding an encoded document\<close>
lemma stat_keys_utf8:
  "toValidUTF8 ''LocationName'' = ''LocationName''"
  "toValidUTF8 ''TimeToConnect'' = ''TimeToConnect''"
  "toValidUTF8 ''VPNDownloadSpeed'' = ''VPNDownloadSpeed''"
  "toValidUTF8 ''VPNUploadSpeed'' = ''VPNUploadSpeed''"
  "toValidUTF8 ''VPNLatency'' = ''VPNLatency''"
  "toValidUTF8 ''Server'' = ''Server''"
  "toValidUTF8 ''Date/Time'' = ''Date/Time''"
  "toValidUTF8 ''Mode'' = ''Mode''"
  by code_simp+

lemma results_keys_utf8:
  "toValidUTF8 ''MachineName'' = ''MachineName''"
  "toValidUTF8 ''OS'' = ''OS''"
  "toValidUTF8 ''WithoutVPN'' = ''WithoutVPN''"
  "toValidUTF8 ''VPNStats'' = ''VPNStats''"
  by code_simp+

lemma coerce_stat_json: "coerce_json (stat_json s) = stat_json (utf8_stat s)"
  by (simp add: stat_json_def utf8_stat_def stat_keys_utf8 del: toValidUTF8.simps)

lemma coerce_results_json: "coerce_json (results_json d) = results_json (utf8_results d)"
  by (cases "VPNStats d")
    (simp_all add: results_json_def utf8_results_def results_keys_utf8 coerce_stat_json
      del: toValidUTF8.simps)

lemma no_number_results_json: "no_number (results_json d)"
  by (cases "VPNStats d")
    (simp_all add: results_json_def stat_json_def list_all_iff)

lemma fits_results_json: "fits 0 (results_json d)"
  by (cases "VPNStats d")
    (simp_all add: results_json_def stat_json_def list_all_iff maxNestingDepth_def)

lemma match_stat_fields:
  "match_field stat_fields ''LocationName'' = Some ''LocationName''"
  "match_field stat_fields ''TimeToConnect'' = Some ''TimeToConnect''"
  "match_field stat_fields ''VPNDownloadSpeed'' = Some ''VPNDownloadSpeed''"
  "match_field stat_fields ''VPNUploadSpeed'' = Some ''VPNUploadSpeed''"
  "match_field stat_fields ''VPNLatency'' = Some ''VPNLatency''"
  "match_field stat_fields ''Server'' = Some ''Server''"
  "match_field stat_fields ''Date/Time'' = Some ''Date/Time''"
  "match_field stat_fields ''Mode'' = Some ''Mode''"
  by (simp_all add: match_field_def stat_fields_def)

lemma match_results_fields:
  "match_field results_fields ''MachineName'' = Some ''MachineName''"
  "match_field results_fields ''OS'' = Some ''OS''"
  "match_field results_fields ''WithoutVPN'' = Some ''WithoutVPN''"
  "match_field results_fields ''VPNStats'' = Some ''VPNStats''"
  by (simp_all add: match_field_def results_fields_def)

lemma decode_stat_json: "decode_stat (stat_json x) b = Some x"
  by (simp add: stat_json_def match_stat_fields set_stat_field_def)

lemma decode_elems_json: "decode_elems (map stat_json xs) backing = Some xs"
  by (induction xs arbitrary: backing) (simp_all add: decode_stat_json)

lemma decode_results_json: "decode_results (results_json d) = Some d"
proof (cases "VPNStats d")
  case None
  then have "d\<lparr>VPNStats := None\<rparr> = d" by simp
  with None show ?thesis
    by (simp add: results_json_def match_results_fields set_results_field_def zero_results_def)
next
  case (Some xs)
  then have "d\<lparr>VPNStats := Some xs\<rparr> = d" by simp
  with Some show ?thesis
    by (cases "xs = []")
      (simp_all add: results_json_def match_results_fields set_results_field_def
        zero_results_def decode_elems_json)
qed

lemma utf8_stat_valid: "valid_stat s \<Longrightarrow> utf8_stat s = s"
  by (simp add: valid_stat_def utf8_stat_def toValidUTF8_valid del: toValidUTF8.simps)

lemma utf8_results_valid: "valid_results d \<Longrightarrow> utf8_results d = d"
proof -
  assume v: "valid_results d"
  then have "map utf8_stat (elems (VPNStats d)) = elems (VPNStats d)"
    by (intro map_idI) (simp add: valid_results_def list_all_iff utf8_stat_valid)
  then have "map_option (map utf8_stat) (VPNStats d) = VPNStats d"
    by (cases "VPNStats d") (simp_all add: elems_def)
  with v show ?thesis
    by (simp add: valid_results_def utf8_results_def toValidUTF8_valid del: toValidUTF8.simps)
qed

lemma tokenize_MarshalIndent:
  "tokenize (MarshalIndent d) = Some (tokens (results_json (utf8_results d)))"
proof -
  have "tokenize (indent_json 0 (results_json d) @ [])
      = prefix_tokens (tokens (coerce_json (results_json d))) (tokenize [])"
    by (rule tokenize_indent_json) (rule no_number_results_json)
  then show ?thesis
    by (simp add: MarshalIndent_def coerce_results_json prefix_tokens_def)
qed

lemma parse_json_MarshalIndent:
  "parse_json (MarshalIndent d) = Some (results_json (utf8_results d))"
  by (simp add: parse_json_def tokenize_MarshalIndent run_tokens_top fits_results_json)

lemma Unmarshal_MarshalIndent: "Unmarshal (MarshalIndent d) = Inr (utf8_results d)"
  by (simp add: Unmarshal_def parse_json_MarshalIndent decode_results_json)

section \<open>Saving a document and loading it again\<close>

text \<open>
  C8 (as amended). When the write succeeds, \<open>saveToFile\<close> followed by \<open>loadFromFile\<close> on
  the same path returns, without error, the saved document with every string coerced to
  valid UTF-8 (each byte that is not part of a UTF-8 sequence replaced by U+FFFD); for a
  document whose strings are all valid UTF-8 that is the saved document itself, equal in
  \<open>MachineName\<close>, \<open>OS\<close>, \<open>WithoutVPN\<close> and every stat in order.
\<close>

theorem save_then_load_round_trip:
  "fst (saveToFile None d path fs) = None \<and>
   loadFromFile (snd (saveToFile None d path fs)) path = Inr (utf8_results d) \<and>
   (valid_results d \<longrightarrow> loadFromFile (snd (saveToFile None d path fs)) path = Inr d)"
proof -
  have l: "loadFromFile (snd (saveToFile None d path fs)) path = Inr (utf8_results d)"
    by (simp add: saveToFile_def loadFromFile_def Unmarshal_MarshalIndent)
  have "fst (saveToFile None d path fs) = None"
    by (simp add: saveToFile_def)
  moreover have "valid_results d \<longrightarrow> loadFromFile (snd (saveToFile None d path fs)) path = Inr d"
    using l by (simp add: utf8_results_valid)
  ultimately show ?thesis using l by blast
qed

text \<open>The document named \<open>box\<close> with its one stat, saved to an empty disk.\<close>

theorem save_then_load_round_trip_witness:
  "valid_results named_document \<and>
   fst (saveToFile None named_document ''results.json'' empty_disk) = None \<and>
   loadFromFile (snd (saveToFile None named_document ''results.json'' empty_disk)) ''results.json''
     = Inr named_document"
proof -
  have v: "valid_results named_document" by code_simp
  with save_then_load_round_trip [of named_document "''results.json''" empty_disk]
  show ?thesis by blast
qed

text \<open>
  C8 as stated fails: a machine name that is the byte \<open>0xFF\<close> is written as the escape of
  U+FFFD and comes back as the three bytes of that rune.
\<close>

theorem save_then_load_garbled_counterexample:
  "fst (saveToFile None garbled_document ''results.json'' empty_disk) = None \<and>
   loadFromFile (snd (saveToFile None garbled_document ''results.json'' empty_disk)) ''results.json''
     = Inr (garbled_document\<lparr>MachineName := [CHR 0xEF, CHR 0xBF, CHR 0xBD]\<rparr>) \<and>
   loadFromFile (snd (saveToFile None garbled_document ''results.json'' empty_disk)) ''results.json''
     \<noteq> Inr garbled_document"
  by code_simp

section \<open>Properties of \<open>writeToFile\<close>\<close>

lemma first_append_named:
  "writeToFile example_store example_stat example_world = Returned (world_with named_document)"
  by (simp add: writeToFile_def Let_def emit_def loadFromFile_def zero_results_def
      append_and_save_def saveToFile_def elems_def example_world_def example_store_def
      world_with_def named_document_def)

lemma first_append_nameless:
  "writeToFile nameless_store example_stat example_world = Returned (world_with nameless_document)"
  by (simp add: writeToFile_def Let_def emit_def loadFromFile_def zero_results_def
      append_and_save_def saveToFile_def elems_def example_world_def example_store_def
      world_with_def named_document_def nameless_document_def nameless_store_def)


lemma Unmarshal_nameless: "Unmarshal (MarshalIndent nameless_document) = Inr nameless_document"
proof -
  have "valid_results nameless_document" by code_simp
  then show ?thesis by (simp add: Unmarshal_MarshalIndent utf8_results_valid)
qed

lemma load_world_with:
  "Unmarshal (MarshalIndent d) = Inr d \<Longrightarrow>
   loadFromFile (files (world_with d)) (resultsFile (world_with d)) = Inr d"
  by (simp add: loadFromFile_def world_with_def example_world_def)


lemma writeToFile_nameless:
  assumes "loadFromFile (files w) (resultsFile w) = Inr d" "MachineName d = []"
    "hostname env = Inr h" "osVersion env = Some v" "write_failure env = None"
  shows "writeToFile env newStats w =
           Returned (w\<lparr>files := (files w)(resultsFile w := Content (MarshalIndent
                         \<lparr>MachineName = h, OS = goos env @ '': '' @ v,
                          WithoutVPN = speedWithoutVPN w, VPNStats = Some [newStats]\<rparr>)),
                       trace := trace w @ [Store newStats]\<rparr>)"
  using assms
  by (simp add: writeToFile_def Let_def emit_def append_and_save_def saveToFile_def elems_def)

lemma resultsFile_world_with: "resultsFile (world_with d) = resultsFile example_world"
  by (simp add: world_with_def)

lemma Unmarshal_renamed:
  "Unmarshal (MarshalIndent (named_document\<lparr>VPNStats := Some [later_stat]\<rparr>))
     = Inr (named_document\<lparr>VPNStats := Some [later_stat]\<rparr>)"
proof -
  have "valid_results (named_document\<lparr>VPNStats := Some [later_stat]\<rparr>)" by code_simp
  then show ?thesis by (simp add: Unmarshal_MarshalIndent utf8_results_valid)
qed

lemma Unmarshal_restarted:
  "Unmarshal (MarshalIndent (nameless_document\<lparr>VPNStats := Some [later_stat]\<rparr>))
     = Inr (nameless_document\<lparr>VPNStats := Some [later_stat]\<rparr>)"
proof -
  have "valid_results (nameless_document\<lparr>VPNStats := Some [later_stat]\<rparr>)" by code_simp
  then show ?thesis by (simp add: Unmarshal_MarshalIndent utf8_results_valid)
qed

text \<open>
  C2. An append that loads a document with a machine name saves it with the identity
  fields it loaded (\<open>writeToFile_named\<close>). But \<open>writeToFile\<close> takes an empty \<open>MachineName\<close>
  for the sign of a first write (line 364), and then builds the document anew (lines
  374--379), where the repository's README says of it: gets system information if this
  is the first write. So the fields are not written once only. Here the first write
  succeeds while the host name is empty, which leaves \<open>MachineName\<close> empty on disk; at the
  next append the host is called \<open>box\<close>, and the \<open>MachineName\<close> on disk becomes \<open>box\<close>.
\<close>

theorem empty_machine_name_identity_set_again:
  "writeToFile nameless_store example_stat example_world = Returned (world_with nameless_document) \<and>
   loadFromFile (files (world_with nameless_document)) (resultsFile example_world)
     = Inr nameless_document \<and>
   MachineName nameless_document = [] \<and>
   loadFromFile (files (final (writeToFile example_store later_stat (world_with nameless_document))))
       (resultsFile example_world)
     = Inr (named_document\<lparr>VPNStats := Some [later_stat]\<rparr>) \<and>
   MachineName (named_document\<lparr>VPNStats := Some [later_stat]\<rparr>) = ''box''"
proof -
  have l: "loadFromFile (files (world_with nameless_document)) (resultsFile (world_with nameless_document))
      = Inr nameless_document"
    by (rule load_world_with [OF Unmarshal_nameless])
  have "writeToFile example_store later_stat (world_with nameless_document) =
      Returned ((world_with nameless_document)
        \<lparr>files := (files (world_with nameless_document))
            (resultsFile (world_with nameless_document) := Content (MarshalIndent
               \<lparr>MachineName = ''box'', OS = goos example_store @ '': '' @ ''Ubuntu 20.04 LTS'',
                WithoutVPN = speedWithoutVPN (world_with nameless_document),
                VPNStats = Some [later_stat]\<rparr>)),
          trace := trace (world_with nameless_document) @ [Store later_stat]\<rparr>)"
    by (rule writeToFile_nameless [OF l])
       (simp_all add: nameless_document_def named_document_def example_store_def)
  then have "loadFromFile (files (final (writeToFile example_store later_stat (world_with nameless_document))))
       (resultsFile example_world)
     = Unmarshal (MarshalIndent (named_document\<lparr>VPNStats := Some [later_stat]\<rparr>))"
    by (simp add: loadFromFile_def world_with_def example_world_def example_store_def
        named_document_def)
  with l first_append_nameless Unmarshal_renamed show ?thesis
    by (simp add: resultsFile_world_with nameless_document_def named_document_def)
qed

text \<open>
  C3. An append that loads a document with a machine name saves the loaded stats
  followed by the new one (\<open>writeToFile_named\<close>), and so does the first append to a fresh
  file (\<open>writeToFile_nameless\<close>). But a document written under an empty host name is
  taken for a fresh file by every later append (line 364) and replaced by one without
  stats (line 378) before the new stat is appended (line 382), where the README says of
  \<open>writeToFile\<close>: appends new test statistics to existing results. Here the host name is
  empty throughout: the document on disk holds one stat, and after the next append it
  holds the new stat only.
\<close>

theorem empty_machine_name_drops_stats:
  "writeToFile nameless_store example_stat example_world = Returned (world_with nameless_document) \<and>
   loadFromFile (files (world_with nameless_document)) (resultsFile example_world)
     = Inr nameless_document \<and>
   VPNStats nameless_document = Some [example_stat] \<and>
   loadFromFile (files (final (writeToFile nameless_store later_stat (world_with nameless_document))))
       (resultsFile example_world)
     = Inr (nameless_document\<lparr>VPNStats := Some [later_stat]\<rparr>)"
proof -
  have l: "loadFromFile (files (world_with nameless_document)) (resultsFile (world_with nameless_document))
      = Inr nameless_document"
    by (rule load_world_with [OF Unmarshal_nameless])
  have "writeToFile nameless_store later_stat (world_with nameless_document) =
      Returned ((world_with nameless_document)
        \<lparr>files := (files (world_with nameless_document))
            (resultsFile (world_with nameless_document) := Content (MarshalIndent
               \<lparr>MachineName = [], OS = goos nameless_store @ '': '' @ ''Ubuntu 20.04 LTS'',
                WithoutVPN = speedWithoutVPN (world_with nameless_document),
                VPNStats = Some [later_stat]\<rparr>)),
          trace := trace (world_with nameless_document) @ [Store later_stat]\<rparr>)"
    by (rule writeToFile_nameless [OF l])
       (simp_all add: nameless_document_def named_document_def example_store_def nameless_store_def)
  then have "loadFromFile (files (final (writeToFile nameless_store later_stat (world_with nameless_document))))
       (resultsFile example_world)
     = Unmarshal (MarshalIndent (nameless_document\<lparr>VPNStats := Some [later_stat]\<rparr>))"
    by (simp add: loadFromFile_def world_with_def example_world_def example_store_def
        nameless_store_def named_document_def nameless_document_def)
  with l first_append_nameless Unmarshal_restarted show ?thesis
    by (simp add: resultsFile_world_with nameless_document_def named_document_def)
qed
section \<open>Properties of the baseline\<close>











section \<open>Properties of the connection lifecycle\<close>

lemma quo_nonneg: "0 \<le> a \<Longrightarrow> 0 < b \<Longrightarrow> quo a b = a div b"
  by (cases "a = 0") (simp_all add: quo_def)

lemma quo_neg: "a < 0 \<Longrightarrow> 0 < b \<Longrightarrow> quo a b = - ((- a) div b)"
  by (simp add: quo_def)

lemma rem_nonneg: "0 \<le> a \<Longrightarrow> 0 < b \<Longrightarrow> rem a b = a mod b"
  by (simp add: rem_def quo_nonneg minus_div_mult_eq_mod)

lemma rem_neg: "a < 0 \<Longrightarrow> 0 < b \<Longrightarrow> rem a b = - ((- a) mod b)"
  by (simp add: rem_def quo_neg algebra_simps minus_div_mult_eq_mod [symmetric])

lemma wrap64_id: "- (2 ^ 63) \<le> x \<Longrightarrow> x < 2 ^ 63 \<Longrightarrow> wrap64 x = x"
  by (simp add: wrap64_def)

lemma lessThanHalf_small: "0 \<le> x \<Longrightarrow> x < 1000000 \<Longrightarrow> lessThanHalf x 1000000 = (2 * x < 1000000)"
  by (simp add: lessThanHalf_def)

lemma Duration_Round_nonneg:
  assumes "0 \<le> d" "d \<le> 2 ^ 63 - 1 - 1000000"
  shows "Duration_Round d Millisecond =
           (if 2 * (d mod 1000000) < 1000000 then d - d mod 1000000 else d + 1000000 - d mod 1000000)"
proof -
  let ?r = "d mod 1000000"
  have r: "0 \<le> ?r" "?r < 1000000" by simp_all
  have w1: "wrap64 (d - ?r) = d - ?r"
    using assms r by (intro wrap64_id) linarith+
  have w2: "wrap64 (d + 1000000 - ?r) = d + 1000000 - ?r"
    using assms r by (intro wrap64_id) linarith+
  show ?thesis
    using assms r
    by (simp add: Duration_Round_def Millisecond_def rem_nonneg lessThanHalf_small w1 w2)
qed

lemma Duration_Round_neg:
  assumes "d < 0" "- (2 ^ 63 - 1 - 1000000) \<le> d"
  shows "Duration_Round d Millisecond =
           (if 2 * ((- d) mod 1000000) < 1000000 then d + (- d) mod 1000000
            else d - 1000000 + (- d) mod 1000000)"
proof -
  let ?r = "(- d) mod 1000000"
  have r: "0 \<le> ?r" "?r < 1000000" by simp_all
  have w1: "wrap64 (d + ?r) = d + ?r"
    using assms r by (intro wrap64_id) linarith+
  have w2: "wrap64 (d - 1000000 + ?r) = d - 1000000 + ?r"
    using assms r by (intro wrap64_id) linarith+
  show ?thesis
    using assms r
    by (simp add: Duration_Round_def Millisecond_def rem_neg lessThanHalf_small w1 w2)
qed

lemma Duration_Round_millisecond:
  assumes "\<bar>d\<bar> \<le> 2 ^ 63 - 1 - 1000000"
  shows "Duration_Round d Millisecond mod 1000000 = 0 \<and> \<bar>Duration_Round d Millisecond - d\<bar> \<le> 500000"
proof (cases "0 \<le> d")
  case True
  with assms have "d \<le> 2 ^ 63 - 1 - 1000000" by simp
  from Duration_Round_nonneg [OF True this] show ?thesis
    by (auto simp: mod_simps)
next
  case False
  with assms have b: "d < 0" "- (2 ^ 63 - 1 - 1000000) \<le> d" by simp_all
  from Duration_Round_neg [OF b] show ?thesis
    by (auto simp: mod_simps)
qed

lemma waitForConnection_returns:
  "poll k \<Longrightarrow> j \<le> k \<Longrightarrow> \<exists>n. waitForConnection poll j = Some n"
proof (induction "k - j" arbitrary: j)
  case 0
  then have "j = k" by simp
  with "0.prems" show ?case by (subst waitForConnection.simps) simp
next
  case (Suc d)
  then have "d = k - Suc j" "Suc j \<le> k" by simp_all
  from Suc.hyps(1) [OF this(1) Suc.prems(1) this(2)]
  obtain n where "waitForConnection poll (Suc j) = Some n" by blast
  then show ?case by (subst waitForConnection.simps) simp
qed

text \<open>
  C6. When the connect command fails, \<open>connectToVPN\<close> returns its error at once: the only
  command it has run is the connect command, no state query. The location loop then
  goes on with the next location, having run the region query and the connect command
  and no disconnect. When the command succeeds and some state query reports
  \<open>Connected\<close>, \<open>connectToVPN\<close> returns the elapsed time rounded to the nearest
  millisecond (for an elapsed time at least a millisecond inside the \<open>int64\<close> range,
  beyond which \<open>Round\<close> saturates).
\<close>

theorem connect_failure_skips_location:
  "(connect_fails env \<longrightarrow> connectToVPN env region w = ConnectError (emit (Connect region) w)) \<and>
   (connect_fails (connection lenv) \<and> findRegion (unicodeLower lenv) (regions lenv) location \<noteq> [] \<longrightarrow>
      main_loop singleThreaded ((location, lenv) # rest) w =
        main_loop singleThreaded rest
          (w\<lparr>trace := trace w @ [Regions, Connect (findRegion (unicodeLower lenv) (regions lenv) location)]\<rparr>)) \<and>
   (\<not> connect_fails env \<and> poll_connected env k \<and> \<bar>elapsed env\<bar> \<le> 2 ^ 63 - 1 - 1000000 \<longrightarrow>
      (\<exists>w' d. connectToVPN env region w = Connected w' d \<and>
              d = Duration_Round (elapsed env) Millisecond \<and>
              d mod 1000000 = 0 \<and> \<bar>d - elapsed env\<bar> \<le> 500000))"
proof (intro conjI impI)
  assume "connect_fails env"
  then show "connectToVPN env region w = ConnectError (emit (Connect region) w)"
    by (simp add: connectToVPN_def)
next
  assume "connect_fails (connection lenv) \<and> findRegion (unicodeLower lenv) (regions lenv) location \<noteq> []"
  then show "main_loop singleThreaded ((location, lenv) # rest) w =
        main_loop singleThreaded rest
          (w\<lparr>trace := trace w @ [Regions, Connect (findRegion (unicodeLower lenv) (regions lenv) location)]\<rparr>)"
    by (simp add: connectToVPN_def emit_def)
next
  assume a: "\<not> connect_fails env \<and> poll_connected env k \<and> \<bar>elapsed env\<bar> \<le> 2 ^ 63 - 1 - 1000000"
  then obtain n where "waitForConnection (poll_connected env) 0 = Some n"
    using waitForConnection_returns [of "poll_connected env" k 0] by auto
  with a Duration_Round_millisecond [of "elapsed env"]
  show "\<exists>w' d. connectToVPN env region w = Connected w' d \<and>
              d = Duration_Round (elapsed env) Millisecond \<and>
              d mod 1000000 = 0 \<and> \<bar>d - elapsed env\<bar> \<le> 500000"
    by (simp add: connectToVPN_def)
qed

text \<open>
  A failing connect command, the loop over one location with it, and a connection that
  is up at the third query after 1.4996 s.
\<close>

theorem connect_failure_skips_location_witness:
  "connectToVPN (example_connection\<lparr>connect_fails := True\<rparr>) ''netherlands-amsterdam'' example_world
     = ConnectError (example_world\<lparr>trace := [Connect ''netherlands-amsterdam'']\<rparr>) \<and>
   main_loop False
     [(\<lparr>Country = ''Netherlands'', City = ''Amsterdam''\<rparr>,
       example_loc_env\<lparr>connection := example_connection\<lparr>connect_fails := True\<rparr>\<rparr>)] example_world
     = Returned (example_world\<lparr>trace := [Regions, Connect ''netherlands-amsterdam'']\<rparr>) \<and>
   (\<exists>w'. connectToVPN example_connection ''netherlands-amsterdam'' example_world
           = Connected w' 1500000000)"
proof -
  let ?fail = "example_connection\<lparr>connect_fails := True\<rparr>"
  let ?lenv = "example_loc_env\<lparr>connection := ?fail\<rparr>"
  let ?loc = "\<lparr>Country = ''Netherlands'', City = ''Amsterdam''\<rparr>"
  have r: "findRegion (unicodeLower ?lenv) (regions ?lenv) ?loc = ''netherlands-amsterdam''" by code_simp
  have a: "connectToVPN ?fail ''netherlands-amsterdam'' example_world
     = ConnectError (example_world\<lparr>trace := [Connect ''netherlands-amsterdam'']\<rparr>)"
    using connect_failure_skips_location
        [where env = ?fail and region = "''netherlands-amsterdam''" and w = example_world
           and lenv = ?lenv and location = ?loc and singleThreaded = False and rest = "[]"]
    by (simp add: example_world_def emit_def)
  have b: "main_loop False [(?loc, ?lenv)] example_world
     = Returned (example_world\<lparr>trace := [Regions, Connect ''netherlands-amsterdam'']\<rparr>)"
    using connect_failure_skips_location
        [where env = ?fail and region = "''netherlands-amsterdam''" and w = example_world
           and lenv = ?lenv and location = ?loc and singleThreaded = False and rest = "[]"] r
    by (simp add: example_world_def example_loc_env_def)
  have d: "Duration_Round 1499600000 Millisecond = 1500000000" by code_simp
  have c: "\<exists>w'. connectToVPN example_connection ''netherlands-amsterdam'' example_world
           = Connected w' 1500000000"
    using connect_failure_skips_location
        [where env = example_connection and region = "''netherlands-amsterdam''"
           and w = example_world and k = 2] d
    by (auto simp: example_connection_def)
  from a b c show ?thesis by blast
qed

section \<open>Properties of \<open>loadFromFile\<close>\<close>

text \<open>
  C7. On a path where no file exists \<open>loadFromFile\<close> returns the zero document and no
  error; on a file whose content is not a JSON text it returns an error, and so it does
  on a JSON text that does not fit the document type.
\<close>

theorem loadFromFile_missing_or_malformed:
  "(fs fileName = NotExist \<longrightarrow> loadFromFile fs fileName = Inr zero_results) \<and>
   (\<forall>file. fs fileName = Content file \<and> parse_json file = None \<longrightarrow>
      loadFromFile fs fileName = Inl JsonSyntaxError) \<and>
   (\<forall>file v. fs fileName = Content file \<and> parse_json file = Some v \<and> decode_results v = None \<longrightarrow>
      loadFromFile fs fileName = Inl JsonTypeError)"
  by (simp add: loadFromFile_def Unmarshal_def)

text \<open>A missing file, the malformed file of the repository's tests, and a JSON array.\<close>

theorem loadFromFile_missing_or_malformed_witness:
  "loadFromFile (\<lambda>path. NotExist) ''nonexistent.json'' = Inr zero_results \<and>
   loadFromFile ((\<lambda>path. NotExist)(''invalid.json'' := Content ''{invalid json}'')) ''invalid.json''
     = Inl JsonSyntaxError \<and>
   loadFromFile ((\<lambda>path. NotExist)(''list.json'' := Content ''[]'')) ''list.json''
     = Inl JsonTypeError"
proof -
  have p1: "parse_json ''{invalid json}'' = None" by code_simp
  have p2: "parse_json ''[]'' = Some (JArray []) \<and> decode_results (JArray []) = None" by code_simp
  show ?thesis
    using loadFromFile_missing_or_malformed [of "\<lambda>path. NotExist" "''nonexistent.json''"]
      loadFromFile_missing_or_malformed
        [of "(\<lambda>path. NotExist)(''invalid.json'' := Content ''{invalid json}'')" "''invalid.json''"]
      loadFromFile_missing_or_malformed
        [of "(\<lambda>path. NotExist)(''list.json'' := Content ''[]'')" "''list.json''"]
      p1 p2
    by simp
qed

section \<open>Properties of the average\<close>

lemma round_even_of_int: "round_even (of_int k) = k"
  by (simp add: round_even_def)

lemma bitlen_le: "0 < a \<Longrightarrow> a < 2 ^ n \<Longrightarrow> bitlen a \<le> int n"
proof -
  assume a: "0 < a" "a < 2 ^ n"
  from bitlen_bounds [OF a(1)] have "2 ^ nat (bitlen a - 1) \<le> a" by simp
  with a(2) have "(2::int) ^ nat (bitlen a - 1) < 2 ^ n" by linarith
  then have "nat (bitlen a - 1) < n" by simp
  then show ?thesis by linarith
qed

lemma ilog2_int_le:
  assumes "0 < n" "n < 2 ^ 53"
  shows "ilog2 (of_int n) \<le> 52"
proof -
  from bitlen_le [OF assms] have "bitlen n \<le> 53" by simp
  moreover have "quotient_of (of_int n) = (n, 1)" by simp
  moreover have "bitlen 1 = 1" by code_simp
  ultimately show ?thesis
    by (simp add: ilog2_def Let_def)
qed

lemma powi_nonpos: "e \<le> 0 \<Longrightarrow> (2::rat) powi e = 1 / 2 ^ nat (- e)"
  by (cases "e = 0") (simp_all add: power_int_def field_simps)

lemma fl64_of_int:
  assumes "\<bar>n\<bar> \<le> 2 ^ 53"
  shows "fl64 (of_int n) = of_int n"
proof -
  consider (zero) "n = 0" | (top) "\<bar>n\<bar> = 2 ^ 53" | (small) "n \<noteq> 0" "\<bar>n\<bar> < 2 ^ 53"
    using assms by linarith
  then show ?thesis
  proof cases
    case zero
    then show ?thesis by (simp add: fl64_def)
  next
    case top
    have "fl64 (of_int (2 ^ 53)) = of_int (2 ^ 53)" by code_simp
    moreover have "fl64 (of_int (- (2 ^ 53))) = of_int (- (2 ^ 53))" by code_simp
    moreover from top have "n = 2 ^ 53 \<or> n = - (2 ^ 53)" by linarith
    ultimately show ?thesis by metis
  next
    case small
    have a: "\<bar>rat_of_int n\<bar> = of_int \<bar>n\<bar>" by simp
    from small have "0 < \<bar>n\<bar>" by simp
    from ilog2_int_le [OF this small(2)] have e: "ilog2 (of_int \<bar>n\<bar>) \<le> 52" .
    let ?k = "nat (52 - ilog2 (of_int \<bar>n\<bar>))"
    have u: "(2::rat) powi (ilog2 (of_int \<bar>n\<bar>) - 52) = 1 / 2 ^ ?k"
      using e powi_nonpos [of "ilog2 (of_int \<bar>n\<bar>) - 52"] by simp
    have "rat_of_int n / (1 / 2 ^ ?k) = of_int (n * 2 ^ ?k)" by simp
    then have "round_even (rat_of_int n / (1 / 2 ^ ?k)) = n * 2 ^ ?k"
      by (simp only: round_even_of_int)
    with small u show ?thesis
      by (simp add: fl64_def Let_def a del: of_int_abs)
  qed
qed

lemma float_sum_exact_aux:
  "\<bar>a\<bar> + (\<Sum>v\<leftarrow>vs. \<bar>v\<bar>) \<le> 2 ^ 53 \<Longrightarrow>
   foldl (\<lambda>total v. fl64 (total + fl64 (of_int v))) (of_int a) vs = of_int (a + sum_list vs)"
proof (induction vs arbitrary: a)
  case Nil
  then show ?case by simp
next
  case (Cons v vs)
  have nn: "0 \<le> (\<Sum>v\<leftarrow>vs. \<bar>v\<bar>)" by (rule sum_list_nonneg) auto
  from Cons.prems have p: "\<bar>a\<bar> + \<bar>v\<bar> + (\<Sum>v\<leftarrow>vs. \<bar>v\<bar>) \<le> 2 ^ 53" by simp
  from p nn have b1: "\<bar>v\<bar> \<le> 2 ^ 53" by linarith
  from p nn have b2: "\<bar>a + v\<bar> \<le> 2 ^ 53" by linarith
  from p have b3: "\<bar>a + v\<bar> + (\<Sum>v\<leftarrow>vs. \<bar>v\<bar>) \<le> 2 ^ 53" by linarith
  have "fl64 (of_int a + fl64 (of_int v)) = of_int (a + v)"
    using fl64_of_int [OF b1] fl64_of_int [OF b2] by simp
  with Cons.IH [OF b3] show ?case by (simp add: add.assoc)
qed

lemma float_sum_exact:
  "(\<Sum>v\<leftarrow>vs. \<bar>v\<bar>) \<le> 2 ^ 53 \<Longrightarrow> float_sum vs = of_int (sum_list vs)"
  using float_sum_exact_aux [of 0 vs] by (simp add: float_sum_def)

lemma average_loop_closed:
  "average_loop xs (td, tu, n, a) =
     (foldl (\<lambda>total v. fl64 (total + fl64 (of_int v))) td (map (sample_speed \<circ> VPNDownloadSpeed) xs),
      foldl (\<lambda>total v. fl64 (total + fl64 (of_int v))) tu (map (sample_speed \<circ> VPNUploadSpeed) xs),
      n + int (length xs),
      (if xs = [] then a else last xs))"
  by (induction xs arbitrary: td tu n a) (simp_all add: sample_speed_def)

lemma fl64_of_nat: "n \<le> 2 ^ 53 \<Longrightarrow> fl64 (of_int (int n)) = of_nat n"
proof -
  assume "n \<le> 2 ^ 53"
  then have "\<bar>int n\<bar> \<le> 2 ^ 53" by (simp add: le_nat_iff nat_le_iff)
  from fl64_of_int [OF this] show ?thesis by simp
qed

subsection \<open>The quotient and its two decimals\<close>

lemma round_even_close: "\<bar>of_int (round_even q) - q\<bar> \<le> 1 / 2"
proof -
  have "of_int \<lfloor>q\<rfloor> \<le> q" "q < of_int \<lfloor>q\<rfloor> + 1" by linarith+
  then show ?thesis
    by (auto simp: round_even_def Let_def)
qed

lemma round_even_unique:
  assumes "\<bar>q - of_int k\<bar> < 1 / 2"
  shows "round_even q = k"
proof -
  have "\<bar>rat_of_int (round_even q) - of_int k\<bar> < 1"
    using round_even_close [of q] assms by linarith
  then have "\<bar>rat_of_int (round_even q - k)\<bar> < 1" by simp
  then have "\<bar>round_even q - k\<bar> < 1"
    by (metis of_int_abs of_int_less_1_iff)
  then show ?thesis by linarith
qed

lemma round_even_nonneg: "0 \<le> q \<Longrightarrow> 0 \<le> round_even q"
proof -
  assume "0 \<le> q"
  then have "0 \<le> \<lfloor>q\<rfloor>" by simp
  then show ?thesis by (auto simp: round_even_def Let_def)
qed

lemma ilog2_lower:
  assumes "0 < q"
  shows "2 powi ilog2 q \<le> q"
proof -
  obtain a b where ab: "quotient_of q = (a, b)" by (cases "quotient_of q")
  then have b: "0 < b" and q: "q = of_int a / of_int b"
    by (simp_all add: quotient_of_denom_pos quotient_of_div)
  with assms have a: "0 < a" by (simp add: zero_less_divide_iff)
  let ?d = "bitlen a - bitlen b"
  show ?thesis
  proof (cases "2 powi ?d \<le> q")
    case True
    with ab show ?thesis by (simp add: ilog2_def Let_def)
  next
    case False
    from bitlen_bounds [OF a] have la: "2 ^ nat (bitlen a - 1) \<le> a" by simp
    from bitlen_bounds [OF b] have lb: "b < 2 ^ nat (bitlen b)" by simp
    have pa: "0 < bitlen a"
    proof (rule ccontr)
      assume "\<not> 0 < bitlen a"
      then have "nat (bitlen a) = 0" by simp
      with bitlen_bounds [OF a] have "a < 1" by simp
      with a show False by simp
    qed
    have pb: "0 \<le> bitlen b" by (rule bitlen_nonneg)
    have "(2::rat) powi (?d - 1) = 2 powi ((bitlen a - 1) - bitlen b)"
      by (simp add: algebra_simps)
    also have "\<dots> = 2 powi (bitlen a - 1) / 2 powi bitlen b"
      by (rule power_int_diff) simp
    also have "\<dots> = 2 ^ nat (bitlen a - 1) / 2 ^ nat (bitlen b)"
      using pa pb by (simp add: power_int_def)
    also have "\<dots> \<le> of_int a / 2 ^ nat (bitlen b)"
    proof -
      from la have "rat_of_int (2 ^ nat (bitlen a - 1)) \<le> of_int a" by (simp only: of_int_le_iff)
      then show ?thesis by (simp add: divide_right_mono)
    qed
    also have "\<dots> \<le> of_int a / of_int b"
    proof -
      from lb have "rat_of_int b \<le> of_int (2 ^ nat (bitlen b))" by (simp only: of_int_le_iff)
      with a b show ?thesis by (intro divide_left_mono) simp_all
    qed
    finally have "(2::rat) powi (?d - 1) \<le> q" using q by simp
    with False ab show ?thesis by (simp add: ilog2_def Let_def)
  qed
qed

lemma fl64_close:
  assumes "0 < x"
  shows "\<bar>fl64 x - x\<bar> \<le> x / 2 ^ 53" "0 \<le> fl64 x"
proof -
  let ?u = "(2::rat) powi (ilog2 x - 52)"
  have u: "0 < ?u" by simp
  have f: "fl64 x = of_int (round_even (x / ?u)) * ?u"
    using assms by (simp add: fl64_def Let_def)
  have "?u = 2 powi ilog2 x / 2 ^ 52" by (simp add: power_int_diff)
  with ilog2_lower [OF assms] have ux: "?u \<le> x / 2 ^ 52" by (simp add: divide_right_mono)
  have "fl64 x - x = (of_int (round_even (x / ?u)) - x / ?u) * ?u"
    using u f by (simp add: algebra_simps)
  then have "\<bar>fl64 x - x\<bar> = \<bar>of_int (round_even (x / ?u)) - x / ?u\<bar> * ?u"
    using u by (simp add: abs_mult)
  also have "\<dots> \<le> (1 / 2) * ?u"
    using round_even_close [of "x / ?u"] u by (intro mult_right_mono) simp_all
  also have "\<dots> \<le> (1 / 2) * (x / 2 ^ 52)" using ux by simp
  finally show "\<bar>fl64 x - x\<bar> \<le> x / 2 ^ 53" by simp
  from assms u have "0 \<le> x / ?u" by simp
  from round_even_nonneg [OF this] f u show "0 \<le> fl64 x" by simp
qed

lemma mean_off_tie:
  assumes n: "0 < n" and k: "\<bar>100 * rat_of_int s / of_nat n - of_int k\<bar> \<le> 1 / 2"
    and t: "(200 * s) mod (2 * int n) \<noteq> int n"
  shows "\<bar>100 * rat_of_int s / of_nat n - of_int k\<bar> \<le> 1 / 2 - 1 / (2 * of_nat n)"
proof -
  let ?t = "100 * s - k * int n"
  have e: "100 * rat_of_int s / of_nat n - of_int k = of_int ?t / of_nat n"
    using n by (simp add: field_simps)
  have npos: "(0::rat) < of_nat n" using n by simp
  from k e have "\<bar>rat_of_int ?t\<bar> / of_nat n \<le> 1 / 2" using npos by simp
  then have "\<bar>rat_of_int ?t\<bar> * 2 \<le> of_nat n" using npos by (simp add: field_simps)
  then have "rat_of_int (\<bar>?t\<bar> * 2) \<le> rat_of_int (int n)" by simp
  then have le: "\<bar>?t\<bar> * 2 \<le> int n" by (simp only: of_int_le_iff)
  have "\<bar>?t\<bar> * 2 \<noteq> int n"
  proof
    assume eq: "\<bar>?t\<bar> * 2 = int n"
    have m: "int n mod (2 * int n) = int n" using n by simp
    have "(200 * s) mod (2 * int n) = int n"
    proof (cases "0 \<le> ?t")
      case True
      with eq have "(100 * s - k * int n) * 2 = int n" by simp
      then have "200 * s = int n + k * (2 * int n)" by (simp add: algebra_simps)
      then have "(200 * s) mod (2 * int n) = (int n + k * (2 * int n)) mod (2 * int n)" by simp
      also have "\<dots> = int n mod (2 * int n)" by (rule mod_mult_self1)
      finally show ?thesis using m by simp
    next
      case False
      with eq have "(k * int n - 100 * s) * 2 = int n" by simp
      then have "200 * s = int n + (k - 1) * (2 * int n)" by (simp add: algebra_simps)
      then have "(200 * s) mod (2 * int n) = (int n + (k - 1) * (2 * int n)) mod (2 * int n)"
        by simp
      also have "\<dots> = int n mod (2 * int n)" by (rule mod_mult_self1)
      finally show ?thesis using m by simp
    qed
    with t show False by simp
  qed
  with le have "\<bar>?t\<bar> * 2 \<le> int n - 1" by linarith
  then have "rat_of_int (\<bar>?t\<bar> * 2) \<le> rat_of_int (int n - 1)" by (simp only: of_int_le_iff)
  then have "\<bar>rat_of_int ?t\<bar> * 2 \<le> of_nat n - 1" by simp
  then have "\<bar>rat_of_int ?t\<bar> / of_nat n \<le> 1 / 2 - 1 / (2 * of_nat n)"
    using npos by (simp add: field_simps)
  with e npos show ?thesis by simp
qed

lemma fmt_2f_float_quotient:
  assumes n: "0 < n" and s: "0 \<le> s" "200 * s < 2 ^ 53"
    and t: "(200 * s) mod (2 * int n) \<noteq> int n"
  shows "fmt_2f (fl64 (of_int s / of_nat n)) = fmt_2f (of_int s / of_nat n)"
proof (cases "s = 0")
  case True
  then show ?thesis by (simp add: fl64_def)
next
  case False
  with s have sp: "0 < s" by simp
  let ?x = "rat_of_int s / of_nat n"
  let ?k = "round_even (100 * ?x)"
  have npos: "(0::rat) < of_nat n" using n by simp
  have x: "0 < ?x" using sp npos by simp
  note c = fl64_close [OF x]
  have "\<bar>100 * ?x - of_int ?k\<bar> \<le> 1 / 2"
    using round_even_close [of "100 * ?x"] by (simp add: abs_minus_commute)
  then have "\<bar>100 * rat_of_int s / of_nat n - of_int ?k\<bar> \<le> 1 / 2" by simp
  from mean_off_tie [OF n this t]
  have d1: "\<bar>100 * ?x - of_int ?k\<bar> \<le> 1 / 2 - 1 / (2 * of_nat n)" by simp
  have "rat_of_int (200 * s) < rat_of_int (2 ^ 53)" using s(2) by (simp only: of_int_less_iff)
  then have "200 * rat_of_int s < 2 ^ 53" by simp
  then have "100 * ?x / 2 ^ 53 < 1 / (2 * of_nat n)"
    using npos by (simp add: field_simps)
  moreover have "\<bar>100 * fl64 ?x - 100 * ?x\<bar> \<le> 100 * ?x / 2 ^ 53"
  proof -
    have "100 * fl64 ?x - 100 * ?x = 100 * (fl64 ?x - ?x)" by (simp add: right_diff_distrib)
    then have "\<bar>100 * fl64 ?x - 100 * ?x\<bar> = 100 * \<bar>fl64 ?x - ?x\<bar>"
      by (simp only: abs_mult abs_numeral)
    with c(1) show ?thesis by simp
  qed
  ultimately have d2: "\<bar>100 * fl64 ?x - 100 * ?x\<bar> < 1 / (2 * of_nat n)" by linarith
  from d1 d2 have "\<bar>100 * fl64 ?x - of_int ?k\<bar> < 1 / 2" by linarith
  from round_even_unique [OF this] have "round_even (100 * fl64 ?x) = ?k" .
  moreover from c(2) have "\<bar>fl64 ?x\<bar> = fl64 ?x" "\<not> fl64 ?x < 0" by simp_all
  moreover from x have "\<bar>?x\<bar> = ?x" "\<not> ?x < 0" by (simp_all only: abs_of_pos not_less less_imp_le)
  ultimately show ?thesis
    using sp n by (simp add: fmt_2f_def Let_def mult.commute)
qed

subsection \<open>The batch and its average\<close>

lemma emit_Speedtest_trace:
  "(emit Speedtest w)\<lparr>trace := trace (emit Speedtest w) @ replicate n Speedtest\<rparr>
     = w\<lparr>trace := trace w @ replicate (Suc n) Speedtest\<rparr>"
  by (simp add: emit_def)

lemma speedTest_loop_measured:
  "ct \<noteq> [] \<Longrightarrow> list_all measured ms \<Longrightarrow>
   speedTest_loop ct ms w acc =
     (w\<lparr>trace := trace w @ replicate (length ms) Speedtest\<rparr>, Some (acc @ samples series_mode ct ms))"
proof (induction ms arbitrary: w acc)
  case Nil
  then show ?case by simp
next
  case (Cons m ms)
  from Cons.prems(2) obtain result now where m: "m = Measured result now"
    by (cases m) (simp_all add: measured_def)
  from Cons.prems(2) have "list_all measured ms" by simp
  from Cons.IH [OF Cons.prems(1) this] m Cons.prems(1) show ?case
    by (simp add: emit_Speedtest_trace del: replicate.simps)
qed

lemma parallel_loop_samples:
  "ct \<noteq> [] \<Longrightarrow>
   parallel_loop ct ms w acc =
     (w\<lparr>trace := trace w @ replicate (length ms) Speedtest\<rparr>, acc @ samples parallel_mode ct ms)"
proof (induction ms arbitrary: w acc)
  case Nil
  then show ?case by simp
next
  case (Cons m ms)
  from Cons.IH [OF Cons.prems] Cons.prems show ?case
    by (cases m) (simp_all add: emit_Speedtest_trace del: replicate.simps)
qed

lemma average_closed:
  "S \<noteq> [] \<Longrightarrow>
   average S = Some ((last S)
     \<lparr>VPNDownloadSpeed := fmt_2f (float_mean (map (sample_speed \<circ> VPNDownloadSpeed) S)) @ ''Mbps'',
      VPNUploadSpeed := fmt_2f (float_mean (map (sample_speed \<circ> VPNUploadSpeed) S)) @ ''Mbps''\<rparr>)"
  by (simp add: average_def average_loop_closed float_sum_def float_mean_def)

lemma float_mean_exact:
  assumes "length vs \<le> 2 ^ 53" "(\<Sum>v\<leftarrow>vs. \<bar>v\<bar>) \<le> 2 ^ 53"
  shows "float_mean vs = fl64 (of_int (sum_list vs) / of_nat (length vs))"
  using float_sum_exact [OF assms(2)] fl64_of_nat [OF assms(1)]
  by (simp add: float_mean_def)

lemma speedTest_measured:
  assumes "ct \<noteq> []" "list_all measured ms" "average (samples series_mode ct ms) = Some a"
  shows "speedTest env ms ct w
           = writeToFile env a (w\<lparr>trace := trace w @ replicate (length ms) Speedtest\<rparr>)"
  using speedTest_loop_measured [OF assms(1,2), of w "[]"] assms(3)
  by (simp add: speedTest_def persist_average_def)

lemma runParallelSpeedTests_samples:
  assumes "ct \<noteq> []" "average (samples parallel_mode ct ms) = Some a"
  shows "runParallelSpeedTests env ms ct w
           = writeToFile env a (w\<lparr>trace := trace w @ replicate (length ms) Speedtest\<rparr>)"
  using parallel_loop_samples [OF assms(1), of ms w "[]"] assms(2)
  by (simp add: runParallelSpeedTests_def persist_average_def)

lemma sum_list_abs_nonneg: "\<forall>v\<in>set vs. 0 \<le> v \<Longrightarrow> (\<Sum>v\<leftarrow>vs. \<bar>v\<bar>) = sum_list (vs :: int list)"
  by (induction vs) simp_all

lemma fmt_2f_float_mean:
  assumes "vs \<noteq> []" "length vs \<le> 2 ^ 53" "\<forall>v\<in>set vs. 0 \<le> v" "200 * sum_list vs < 2 ^ 53"
    "(200 * sum_list vs) mod (2 * int (length vs)) \<noteq> int (length vs)"
  shows "fmt_2f (float_mean vs) = fmt_2f (of_int (sum_list vs) / of_nat (length vs))"
proof -
  from assms(3) have nn: "0 \<le> sum_list vs" by (simp add: sum_list_nonneg)
  with assms(4) have "sum_list vs \<le> 2 ^ 53" by linarith
  with assms(3) have "(\<Sum>v\<leftarrow>vs. \<bar>v\<bar>) \<le> 2 ^ 53" by (simp add: sum_list_abs_nonneg)
  from float_mean_exact [OF assms(2) this]
  have "float_mean vs = fl64 (of_int (sum_list vs) / of_nat (length vs))" .
  moreover from assms(1) have "0 < length vs" by simp
  ultimately show ?thesis
    using fmt_2f_float_quotient [OF _ nn assms(4,5)] by simp
qed

text \<open>
  C4 (as amended). A batch through the VPN with at least one sample hands one stat to
  \<open>writeToFile\<close>, in series mode (where every invocation must have returned a result) and
  in parallel mode (where the failed invocations are left out). It is the last sample
  with two fields replaced: the download and the upload speed are the \<open>float64\<close> quotient
  of the \<open>float64\<close> sum of the samples' speeds by their number, written by \<open>%.2f\<close> with the
  suffix \<open>Mbps\<close>. For at most \<open>2^53\<close> samples with magnitudes adding up to at most \<open>2^53\<close>
  the sum is exact, so that the quotient is the \<open>float64\<close> nearest to the mean. What is
  written then is the mean rounded to two decimals whenever the speeds are not negative,
  add up to less than \<open>2^53 / 200\<close>, and the mean does not lie halfway between two
  hundredths; at such a tie the \<open>float64\<close> quotient decides.
\<close>

theorem batch_average_is_float_mean:
  "(connectionTime \<noteq> [] \<and> S \<noteq> [] \<and>
    a = (last S)
      \<lparr>VPNDownloadSpeed := fmt_2f (float_mean (map (sample_speed \<circ> VPNDownloadSpeed) S)) @ ''Mbps'',
       VPNUploadSpeed := fmt_2f (float_mean (map (sample_speed \<circ> VPNUploadSpeed) S)) @ ''Mbps''\<rparr> \<longrightarrow>
      average S = Some a \<and>
      (list_all measured ms \<and> samples series_mode connectionTime ms = S \<longrightarrow>
         speedTest env ms connectionTime w =
           writeToFile env a (w\<lparr>trace := trace w @ replicate (length ms) Speedtest\<rparr>)) \<and>
      (samples parallel_mode connectionTime ms = S \<longrightarrow>
         runParallelSpeedTests env ms connectionTime w =
           writeToFile env a (w\<lparr>trace := trace w @ replicate (length ms) Speedtest\<rparr>))) \<and>
   (length vs \<le> 2 ^ 53 \<and> (\<Sum>v\<leftarrow>vs. \<bar>v\<bar>) \<le> 2 ^ 53 \<longrightarrow>
      float_mean vs = fl64 (of_int (sum_list vs) / of_nat (length vs))) \<and>
   (vs \<noteq> [] \<and> length vs \<le> 2 ^ 53 \<and> (\<forall>v\<in>set vs. 0 \<le> v) \<and> 200 * sum_list vs < 2 ^ 53 \<and>
    (200 * sum_list vs) mod (2 * int (length vs)) \<noteq> int (length vs) \<longrightarrow>
      fmt_2f (float_mean vs) = fmt_2f (of_int (sum_list vs) / of_nat (length vs)))"
proof (intro conjI impI)
  assume h: "connectionTime \<noteq> [] \<and> S \<noteq> [] \<and>
    a = (last S)
      \<lparr>VPNDownloadSpeed := fmt_2f (float_mean (map (sample_speed \<circ> VPNDownloadSpeed) S)) @ ''Mbps'',
       VPNUploadSpeed := fmt_2f (float_mean (map (sample_speed \<circ> VPNUploadSpeed) S)) @ ''Mbps''\<rparr>"
  then show "average S = Some a" using average_closed [of S] by simp
next
  assume h: "connectionTime \<noteq> [] \<and> S \<noteq> [] \<and>
    a = (last S)
      \<lparr>VPNDownloadSpeed := fmt_2f (float_mean (map (sample_speed \<circ> VPNDownloadSpeed) S)) @ ''Mbps'',
       VPNUploadSpeed := fmt_2f (float_mean (map (sample_speed \<circ> VPNUploadSpeed) S)) @ ''Mbps''\<rparr>"
    and s: "list_all measured ms \<and> samples series_mode connectionTime ms = S"
  from h have "average S = Some a" using average_closed [of S] by simp
  with h s show "speedTest env ms connectionTime w =
      writeToFile env a (w\<lparr>trace := trace w @ replicate (length ms) Speedtest\<rparr>)"
    by (simp add: speedTest_measured)
next
  assume h: "connectionTime \<noteq> [] \<and> S \<noteq> [] \<and>
    a = (last S)
      \<lparr>VPNDownloadSpeed := fmt_2f (float_mean (map (sample_speed \<circ> VPNDownloadSpeed) S)) @ ''Mbps'',
       VPNUploadSpeed := fmt_2f (float_mean (map (sample_speed \<circ> VPNUploadSpeed) S)) @ ''Mbps''\<rparr>"
    and s: "samples parallel_mode connectionTime ms = S"
  from h have "average S = Some a" using average_closed [of S] by simp
  with h s show "runParallelSpeedTests env ms connectionTime w =
      writeToFile env a (w\<lparr>trace := trace w @ replicate (length ms) Speedtest\<rparr>)"
    by (simp add: runParallelSpeedTests_samples)
next
  assume "length vs \<le> 2 ^ 53 \<and> (\<Sum>v\<leftarrow>vs. \<bar>v\<bar>) \<le> 2 ^ 53"
  then show "float_mean vs = fl64 (of_int (sum_list vs) / of_nat (length vs))"
    by (simp add: float_mean_exact)
next
  assume "vs \<noteq> [] \<and> length vs \<le> 2 ^ 53 \<and> (\<forall>v\<in>set vs. 0 \<le> v) \<and> 200 * sum_list vs < 2 ^ 53 \<and>
    (200 * sum_list vs) mod (2 * int (length vs)) \<noteq> int (length vs)"
  then show "fmt_2f (float_mean vs) = fmt_2f (of_int (sum_list vs) / of_nat (length vs))"
    by (intro fmt_2f_float_mean) simp_all
qed

text \<open>
  The scenario of the specification and of the repository's test (download speeds 100,
  200, 300 and upload speeds 50, 150, 250), and two batches in which speeds of 1000 and
  1 Mbps give a mean of 500.50: one in series, one in parallel with a failed invocation.
\<close>

theorem batch_average_is_float_mean_witness:
  "average test_stats =
     Some (zero_stat\<lparr>LocationName := ''TestCountry, TestCity'', TimeToConnect := ''1.5s'',
                     VPNDownloadSpeed := ''200.00Mbps'', VPNUploadSpeed := ''150.00Mbps''\<rparr>) \<and>
   float_mean [100, 200, 300] = fl64 (600 / 3) \<and>
   fmt_2f (float_mean [1000, 1]) = fmt_2f (1001 / 2) \<and>
   speedTest example_store pair_batch ''1.5s'' example_world =
     writeToFile example_store
       ((sample_stat series_mode ''1.5s'' slow_result ''2025-01-01 12:00:09'')
          \<lparr>VPNDownloadSpeed := ''500.50Mbps'', VPNUploadSpeed := ''250.00Mbps''\<rparr>)
       (example_world\<lparr>trace := [Speedtest, Speedtest]\<rparr>) \<and>
   runParallelSpeedTests example_store mixed_batch ''1.5s'' example_world =
     writeToFile example_store
       ((sample_stat parallel_mode ''1.5s'' slow_result ''2025-01-01 12:00:09'')
          \<lparr>VPNDownloadSpeed := ''500.50Mbps'', VPNUploadSpeed := ''250.00Mbps''\<rparr>)
       (example_world\<lparr>trace := [Speedtest, Speedtest, Speedtest]\<rparr>)"
proof -
  let ?T = "zero_stat\<lparr>LocationName := ''TestCountry, TestCity'', TimeToConnect := ''1.5s'',
                     VPNDownloadSpeed := ''200.00Mbps'', VPNUploadSpeed := ''150.00Mbps''\<rparr>"
  let ?A = "(sample_stat series_mode ''1.5s'' slow_result ''2025-01-01 12:00:09'')
          \<lparr>VPNDownloadSpeed := ''500.50Mbps'', VPNUploadSpeed := ''250.00Mbps''\<rparr>"
  let ?B = "(sample_stat parallel_mode ''1.5s'' slow_result ''2025-01-01 12:00:09'')
          \<lparr>VPNDownloadSpeed := ''500.50Mbps'', VPNUploadSpeed := ''250.00Mbps''\<rparr>"
  let ?S = "samples series_mode ''1.5s'' pair_batch"
  let ?P = "samples parallel_mode ''1.5s'' mixed_batch"
  have t: "test_stats \<noteq> []" by (simp add: test_stats_def)
  have ta: "?T = (last test_stats)
     \<lparr>VPNDownloadSpeed := fmt_2f (float_mean (map (sample_speed \<circ> VPNDownloadSpeed) test_stats)) @ ''Mbps'',
      VPNUploadSpeed := fmt_2f (float_mean (map (sample_speed \<circ> VPNUploadSpeed) test_stats)) @ ''Mbps''\<rparr>"
    by code_simp
  have sa: "?A = (last ?S)
     \<lparr>VPNDownloadSpeed := fmt_2f (float_mean (map (sample_speed \<circ> VPNDownloadSpeed) ?S)) @ ''Mbps'',
      VPNUploadSpeed := fmt_2f (float_mean (map (sample_speed \<circ> VPNUploadSpeed) ?S)) @ ''Mbps''\<rparr>"
    by code_simp
  have pa: "?B = (last ?P)
     \<lparr>VPNDownloadSpeed := fmt_2f (float_mean (map (sample_speed \<circ> VPNDownloadSpeed) ?P)) @ ''Mbps'',
      VPNUploadSpeed := fmt_2f (float_mean (map (sample_speed \<circ> VPNUploadSpeed) ?P)) @ ''Mbps''\<rparr>"
    by code_simp
  have ne: "?S \<noteq> []" "?P \<noteq> []" "list_all measured pair_batch"
    "length pair_batch = 2" "length mixed_batch = 3"
    by (simp_all add: pair_batch_def mixed_batch_def measured_def)
  have c: "''1.5s'' \<noteq> []" by simp
  have w: "trace example_world = []" by (simp add: example_world_def)
  have 1: "average test_stats = Some ?T"
    using batch_average_is_float_mean
        [where connectionTime = "''1.5s''" and S = test_stats and a = ?T] c t ta
    by blast
  have 2: "float_mean [100, 200, 300] = fl64 (600 / 3)"
    using batch_average_is_float_mean [where vs = "[100, 200, 300]", THEN conjunct2, THEN conjunct1]
    by simp
  have 3: "fmt_2f (float_mean [1000, 1]) = fmt_2f (1001 / 2)"
    using batch_average_is_float_mean [where vs = "[1000, 1]", THEN conjunct2, THEN conjunct2]
    by simp
  have 4: "speedTest example_store pair_batch ''1.5s'' example_world =
      writeToFile example_store ?A (example_world\<lparr>trace := [Speedtest, Speedtest]\<rparr>)"
    using batch_average_is_float_mean
        [where connectionTime = "''1.5s''" and S = ?S and a = ?A and ms = pair_batch
           and env = example_store and w = example_world] c ne sa w
    by (simp add: numeral_2_eq_2)
  have 5: "runParallelSpeedTests example_store mixed_batch ''1.5s'' example_world =
      writeToFile example_store ?B (example_world\<lparr>trace := [Speedtest, Speedtest, Speedtest]\<rparr>)"
    using batch_average_is_float_mean
        [where connectionTime = "''1.5s''" and S = ?P and a = ?B and ms = mixed_batch
           and env = example_store and w = example_world] c ne pa w
    by (simp add: numeral_3_eq_3)
  from 1 2 3 4 5 show ?thesis by blast
qed

text \<open>
  C4 as stated fails: forty samples with download speeds 1, 1, 1 and 37 times 0 Mbps have
  the mean 3/40 = 0.075, which is 0.08 to two decimals; the \<open>float64\<close> quotient lies below
  0.075, and the stat that reaches the store says \<open>0.07Mbps\<close>.
\<close>

theorem tie_batch_mean_counterexample:
  "map VPNDownloadSpeed (stored (final (speedTest example_store tie_batch ''1.5s'' example_world)))
     = [''0.07Mbps''] \<and>
   map (sample_speed \<circ> VPNDownloadSpeed) (samples series_mode ''1.5s'' tie_batch)
     = replicate 3 1 @ replicate 37 0 \<and>
   rat_of_int (sum_list (replicate 3 1 @ replicate 37 0)) / of_nat 40 = 3 / 40 \<and>
   fmt_2f (3 / 40) = ''0.08''"
proof -
  have m: "list_all measured tie_batch"
    by (simp add: tie_batch_def measured_def list_all_iff)
  have "map_option VPNDownloadSpeed (average (samples series_mode ''1.5s'' tie_batch))
      = Some ''0.07Mbps''"
    by code_simp
  then obtain a where a: "average (samples series_mode ''1.5s'' tie_batch) = Some a"
    "VPNDownloadSpeed a = ''0.07Mbps''"
    by auto
  have s: "stored example_world = []" by (simp add: stored_def example_world_def)
  have "stored (final (speedTest example_store tie_batch ''1.5s'' example_world)) = [a]"
    using speedTest_measured [OF _ m a(1), of example_store example_world] s
      writeToFile_stored [of example_store a]
    by (simp add: stored_def)
  moreover have "map (sample_speed \<circ> VPNDownloadSpeed) (samples series_mode ''1.5s'' tie_batch)
     = replicate 3 1 @ replicate 37 0"
    by code_simp
  moreover have "rat_of_int (sum_list (replicate 3 1 @ replicate 37 0)) / of_nat 40 = 3 / 40"
    by code_simp
  moreover have "fmt_2f (3 / 40) = ''0.08''" by code_simp
  ultimately show ?thesis using a(2) by simp
qed

section \<open>Properties of the region resolver\<close>

lemma formatted_neq_countryOnly: "formattedLocation m l \<noteq> countryOnly m l"
  by (simp add: formattedLocation_def countryOnly_def)

lemma findRegion_loop_none:
  "fl \<notin> set rs \<Longrightarrow> co \<notin> set rs \<Longrightarrow> findRegion_loop fl co rs = ''''"
  by (induction rs) auto

lemma findRegion_loop_skip:
  "fl \<notin> set pre \<Longrightarrow> co \<notin> set pre \<Longrightarrow>
   findRegion_loop fl co (pre @ rs) = findRegion_loop fl co rs"
  by (induction pre) auto

text \<open>
  C1 (as amended). \<open>findRegion\<close> returns the empty token when the region query fails or
  when neither candidate is an entry of the list. Otherwise the list is scanned once, in
  its own order, and the first entry equal to either candidate decides: the country+city
  form is returned when it is met before any country-only entry, and the country-only
  form is returned when it is met before any country+city entry. This holds for every
  location, whatever \<open>strings.ToLower\<close> makes of its names beyond ASCII.
\<close>

theorem findRegion_first_matching_entry:
  "findRegion m (Inl e) l = '''' \<and>
   (formattedLocation m l \<notin> set rs \<and> countryOnly m l \<notin> set rs \<longrightarrow>
      findRegion m (Inr rs) l = '''') \<and>
   (\<forall>pre post. rs = pre @ formattedLocation m l # post \<and>
        formattedLocation m l \<notin> set pre \<and> countryOnly m l \<notin> set pre \<longrightarrow>
        findRegion m (Inr rs) l = formattedLocation m l) \<and>
   (\<forall>pre post. rs = pre @ countryOnly m l # post \<and>
        formattedLocation m l \<notin> set pre \<and> countryOnly m l \<notin> set pre \<longrightarrow>
        findRegion m (Inr rs) l = countryOnly m l)"
  by (auto simp: findRegion_def findRegion_loop_none findRegion_loop_skip formatted_neq_countryOnly)

text \<open>
  The four cases at concrete inputs; the fourth is the scenario of the specification
  (Romania, Bucharest against the single token \<open>romania\<close>). The last location has a name
  beyond ASCII, lowered by the Unicode mapping.
\<close>

theorem findRegion_first_matching_entry_witness:
  "findRegion beyond_ascii (Inl ExecError) \<lparr>Country = ''Romania'', City = ''Bucharest''\<rparr> = '''' \<and>
   findRegion beyond_ascii (Inr [''france'', ''usa''])
      \<lparr>Country = ''Romania'', City = ''Bucharest''\<rparr> = '''' \<and>
   findRegion beyond_ascii (Inr [''usa'', ''romania-bucharest'', ''romania''])
      \<lparr>Country = ''Romania'', City = ''Bucharest''\<rparr> = ''romania-bucharest'' \<and>
   findRegion beyond_ascii (Inr [''romania''])
      \<lparr>Country = ''Romania'', City = ''Bucharest''\<rparr> = ''romania'' \<and>
   findRegion austrian (Inr [austria_lower @ ''-wien'', austria_lower])
      \<lparr>Country = austria, City = ''Wien''\<rparr> = austria_lower @ ''-wien''"
proof -
  let ?l = "\<lparr>Country = ''Romania'', City = ''Bucharest''\<rparr>"
  let ?m = beyond_ascii
  have fl: "formattedLocation ?m ?l = ''romania-bucharest''" by code_simp
  have co: "countryOnly ?m ?l = ''romania''" by code_simp
  have a: "findRegion ?m (Inl ExecError) ?l = ''''"
    using findRegion_first_matching_entry [of ?m ExecError ?l "[]"] by blast
  have b: "findRegion ?m (Inr [''france'', ''usa'']) ?l = ''''"
    using findRegion_first_matching_entry [of ?m ExecError ?l "[''france'', ''usa'']"]
    by (simp add: fl co)
  have c: "findRegion ?m (Inr [''usa'', ''romania-bucharest'', ''romania'']) ?l
      = ''romania-bucharest''"
  proof -
    have "[''usa'', ''romania-bucharest'', ''romania'']
         = [''usa''] @ formattedLocation ?m ?l # [''romania'']
       \<and> formattedLocation ?m ?l \<notin> set [''usa''] \<and> countryOnly ?m ?l \<notin> set [''usa'']"
      by (simp add: fl co)
    then show ?thesis
      using findRegion_first_matching_entry
          [of ?m ExecError ?l "[''usa'', ''romania-bucharest'', ''romania'']"]
      by (metis fl)
  qed
  have d: "findRegion ?m (Inr [''romania'']) ?l = ''romania''"
  proof -
    have "[''romania''] = [] @ countryOnly ?m ?l # []
       \<and> formattedLocation ?m ?l \<notin> set [] \<and> countryOnly ?m ?l \<notin> set []"
      by (simp add: co)
    then show ?thesis
      using findRegion_first_matching_entry [of ?m ExecError ?l "[''romania'']"]
      by (metis co)
  qed
  have e: "findRegion austrian (Inr [austria_lower @ ''-wien'', austria_lower])
      \<lparr>Country = austria, City = ''Wien''\<rparr> = austria_lower @ ''-wien''"
  proof -
    let ?v = "\<lparr>Country = austria, City = ''Wien''\<rparr>"
    have f: "formattedLocation austrian ?v = austria_lower @ ''-wien''" by code_simp
    have "[austria_lower @ ''-wien'', austria_lower]
         = [] @ formattedLocation austrian ?v # [austria_lower]
       \<and> formattedLocation austrian ?v \<notin> set [] \<and> countryOnly austrian ?v \<notin> set []"
      by (simp add: f)
    then show ?thesis
      using findRegion_first_matching_entry
          [of austrian ExecError ?v "[austria_lower @ ''-wien'', austria_lower]"]
      by (metis f)
  qed
  from a b c d e show ?thesis by blast
qed

text \<open>
  C1 as stated fails: with the list \<open>romania, romania-bucharest\<close> both candidates are
  entries of the list, and the country-only form is returned.
\<close>

theorem findRegion_prefers_city_counterexample:
  "formattedLocation beyond_ascii \<lparr>Country = ''Romania'', City = ''Bucharest''\<rparr>
      \<in> set [''romania'', ''romania-bucharest''] \<and>
   findRegion beyond_ascii (Inr [''romania'', ''romania-bucharest''])
      \<lparr>Country = ''Romania'', City = ''Bucharest''\<rparr> = ''romania'' \<and>
   findRegion beyond_ascii (Inr [''romania'', ''romania-bucharest''])
      \<lparr>Country = ''Romania'', City = ''Bucharest''\<rparr>
      \<noteq> formattedLocation beyond_ascii \<lparr>Country = ''Romania'', City = ''Bucharest''\<rparr>"
  by code_simp

end
